theory Spec2Isabelle
  imports Main "HOL-Library.Sublist" "HOL-Library.Log_Nat"
begin

section \<open>BritEdge test suite: values and strings of the JavaScript source\<close>

text \<open>
  The source is one class, \<^verbatim>\<open>BritEdgeTestSuite\<close> in \<^verbatim>\<open>test-suite.js\<close>. Its methods
  mutate \<^verbatim>\<open>this.results\<close>, read the wall clock and call \<^verbatim>\<open>fetch\<close>. The embedding
  threads one state record through every method; what the network answers is an
  argument of the model. Output written with \<^verbatim>\<open>console.log\<close> is not modelled.
\<close>

subsection \<open>Strings\<close>

text \<open>\<^verbatim>\<open>String.prototype.includes\<close>: the second string occurs somewhere in the first.\<close>

fun includes_str :: "string \<Rightarrow> string \<Rightarrow> bool" where
  "includes_str [] t = (t = [])"
| "includes_str (c # cs) t = (prefix t (c # cs) \<or> includes_str cs t)"

text \<open>\<^verbatim>\<open>String.prototype.startsWith\<close>.\<close>

definition startsWith :: "string \<Rightarrow> string \<Rightarrow> bool" where
  "startsWith s t = prefix t s"

text \<open>
  Decimal rendering of an integer inside a template string, as JavaScript renders
  an integral Number of magnitude below \<open>10^21\<close>.
\<close>

definition digit :: "nat \<Rightarrow> char" where
  "digit d = ''0123456789'' ! (d mod 10)"

fun show_nat :: "nat \<Rightarrow> string" where
  "show_nat n = (if n < 10 then [digit n] else show_nat (n div 10) @ [digit n])"

declare show_nat.simps [simp del]

definition show_int :: "int \<Rightarrow> string" where
  "show_int i = (if i < 0 then CHR ''-'' # show_nat (nat (- i)) else show_nat (nat i))"

subsection \<open>JavaScript values\<close>

text \<open>
  What \<^verbatim>\<open>response.json()\<close> resolves to, and what reading a property of it gives.
  A Number is carried as an integer: the suite only tests a number for truthiness,
  compares it with 0 and prints it. An object is the list of its own properties.
\<close>

datatype jsval =
    Undefined
  | Null
  | Bool bool
  | Num int
  | Str string
  | Arr "jsval list"
  | Obj "(string \<times> jsval) list"

text \<open>\<^verbatim>\<open>ToBoolean\<close>: what \<^verbatim>\<open>&&\<close>, \<^verbatim>\<open>if\<close> and \<^verbatim>\<open>filter(Boolean)\<close> test.\<close>

fun truthy :: "jsval \<Rightarrow> bool" where
  "truthy Undefined = False"
| "truthy Null = False"
| "truthy (Bool b) = b"
| "truthy (Num n) = (n \<noteq> 0)"
| "truthy (Str s) = (s \<noteq> [])"
| "truthy (Arr xs) = True"
| "truthy (Obj kvs) = True"

subsection \<open>The result log\<close>

text \<open>
  One entry of \<^verbatim>\<open>this.results\<close>. The status is the string the source stores. The
  timestamp is the clock reading at the call (the source stores its ISO rendering).
\<close>

record testResult =
  test :: string
  status :: string
  message :: string
  timestamp :: int
  data :: jsval

text \<open>
  The four fields of the object, and the two parts of the outside world the suite
  touches: the wall clock read by \<^verbatim>\<open>Date.now()\<close>, in milliseconds, and the URLs
  handed to \<^verbatim>\<open>fetch\<close> so far, oldest first.
\<close>

record state =
  baseURL :: string
  websiteURL :: string
  results :: "testResult list"
  startTime :: int
  clock :: int
  requested :: "string list"

text \<open>The constructor, run when the clock shows \<open>t\<close> and nothing has been fetched.\<close>

definition constructor :: "int \<Rightarrow> state" where
  "constructor t =
     \<lparr> baseURL = ''https://func-britedge-assignment.azurewebsites.net/api'',
       websiteURL = ''https://thankful-sand-085c06103.2.azurestaticapps.net'',
       results = [],
       startTime = t,
       clock = t,
       requested = [] \<rparr>"

text \<open>\<^verbatim>\<open>logResult(testName, passed, message, data = null)\<close>.\<close>

definition logResult :: "string \<Rightarrow> bool \<Rightarrow> string \<Rightarrow> jsval \<Rightarrow> state \<Rightarrow> state" where
  "logResult testName passed msg d st =
     st\<lparr> results := results st @
          [\<lparr> test = testName,
             status = (if passed then ''PASS'' else ''FAIL''),
             message = msg,
             timestamp = clock st,
             data = d \<rparr>] \<rparr>"

section \<open>The outside world\<close>

subsection \<open>Responses and the network\<close>

text \<open>
  A \<^verbatim>\<open>Response\<close>, as far as the suite looks at it: \<^verbatim>\<open>response.status\<close>, the function
  \<^verbatim>\<open>response.headers.get\<close> (\<open>None\<close> is \<^verbatim>\<open>null\<close>), and what the promises
  \<^verbatim>\<open>response.json()\<close> and \<^verbatim>\<open>response.text()\<close> settle to: \<open>Inl\<close> carries the
  \<^verbatim>\<open>message\<close> of the error a rejected promise throws at its \<^verbatim>\<open>await\<close>.
\<close>

record response =
  resp_status :: nat
  resp_headers :: "string \<Rightarrow> string option"
  resp_json :: "string + jsval"
  resp_text :: "string + string"

text \<open>
  What one call of \<^verbatim>\<open>fetch\<close> does: it takes \<open>latency\<close> milliseconds of wall-clock
  time and then either rejects (\<open>Inl\<close>, the error's message) or resolves.
\<close>

record reply =
  latency :: nat
  outcome :: "string + response"

text \<open>
  Everything the source leaves to its surroundings. \<open>net n url\<close> is the reply to the
  request for \<open>url\<close> made after \<open>n\<close> earlier requests. The other fields belong to
  the JavaScript engine: the message of the \<^verbatim>\<open>TypeError\<close> thrown when a property is
  read from \<^verbatim>\<open>undefined\<close> or \<^verbatim>\<open>null\<close> (its wording differs between engines), and
  the outcome of \<^verbatim>\<open>v > 0\<close> for a string, array or object \<open>v\<close>, which the engine
  first converts to a number, and the rendering of an array or object inside a
  template string; either conversion may throw.
\<close>

record env =
  net :: "nat \<Rightarrow> string \<Rightarrow> reply"
  read_error :: "jsval \<Rightarrow> string \<Rightarrow> string"
  coerced_gt_zero :: "jsval \<Rightarrow> string + bool"
  coerced_string :: "jsval \<Rightarrow> string + string"

subsection \<open>Statements that may throw\<close>

text \<open>
  A statement run in a state either throws (the error's message, and the state
  reached when it was thrown) or returns a value and a state.
\<close>

datatype 'a result = Throw string state | Return 'a state

type_synonym 'a action = "state \<Rightarrow> 'a result"

definition andThen :: "'a action \<Rightarrow> ('a \<Rightarrow> 'b action) \<Rightarrow> 'b action" where
  "andThen m f st =
     (case m st of Throw e st' \<Rightarrow> Throw e st' | Return x st' \<Rightarrow> f x st')"

definition lift :: "string + 'a \<Rightarrow> 'a action" where
  "lift r st = (case r of Inl e \<Rightarrow> Throw e st | Inr x \<Rightarrow> Return x st)"

text \<open>\<^verbatim>\<open>try { body } catch (error) { handler(error.message) }\<close>, the handler not throwing.\<close>

definition try_catch :: "unit action \<Rightarrow> (string \<Rightarrow> state \<Rightarrow> state) \<Rightarrow> state \<Rightarrow> state" where
  "try_catch body handler st =
     (case body st of Throw e st' \<Rightarrow> handler e st' | Return u st' \<Rightarrow> st')"

text \<open>\<^verbatim>\<open>this.logResult(...)\<close> as a statement.\<close>

definition logS :: "string \<Rightarrow> bool \<Rightarrow> string \<Rightarrow> jsval \<Rightarrow> unit action" where
  "logS testName passed msg d st = Return () (logResult testName passed msg d st)"

text \<open>\<^verbatim>\<open>Date.now()\<close>.\<close>

definition now :: "int action" where
  "now st = Return (clock st) st"

text \<open>\<^verbatim>\<open>await fetch(url)\<close>: the request is noted and the clock moves on, also when it rejects.\<close>

definition fetch :: "env \<Rightarrow> string \<Rightarrow> response action" where
  "fetch ev url st =
     (let r = net ev (length (requested st)) url;
          st' = st\<lparr> clock := clock st + int (latency r),
                    requested := requested st @ [url] \<rparr>
      in case outcome r of Inl e \<Rightarrow> Throw e st' | Inr resp \<Rightarrow> Return resp st')"

text \<open>\<^verbatim>\<open>await response.json()\<close> and \<^verbatim>\<open>await response.text()\<close>.\<close>

definition json :: "response \<Rightarrow> jsval action" where
  "json resp = lift (resp_json resp)"

definition text_of :: "response \<Rightarrow> string action" where
  "text_of resp = lift (resp_text resp)"

subsection \<open>Reading parsed JSON\<close>

text \<open>
  \<^verbatim>\<open>v.p\<close> for the property names the suite reads, none of which is inherited from
  a prototype: \<^verbatim>\<open>length\<close> is an own property of strings and arrays.
\<close>

fun get_prop :: "env \<Rightarrow> jsval \<Rightarrow> string \<Rightarrow> string + jsval" where
  "get_prop ev Undefined p = Inl (read_error ev Undefined p)"
| "get_prop ev Null p = Inl (read_error ev Null p)"
| "get_prop ev (Bool b) p = Inr Undefined"
| "get_prop ev (Num n) p = Inr Undefined"
| "get_prop ev (Str s) p = Inr (if p = ''length'' then Num (int (length s)) else Undefined)"
| "get_prop ev (Arr xs) p = Inr (if p = ''length'' then Num (int (length xs)) else Undefined)"
| "get_prop ev (Obj kvs) p = Inr (case map_of kvs p of None \<Rightarrow> Undefined | Some v \<Rightarrow> v)"

text \<open>\<^verbatim>\<open>v[0]\<close>.\<close>

fun get_first :: "env \<Rightarrow> jsval \<Rightarrow> string + jsval" where
  "get_first ev Undefined = Inl (read_error ev Undefined ''0'')"
| "get_first ev Null = Inl (read_error ev Null ''0'')"
| "get_first ev (Bool b) = Inr Undefined"
| "get_first ev (Num n) = Inr Undefined"
| "get_first ev (Str s) = Inr (case s of [] \<Rightarrow> Undefined | c # cs \<Rightarrow> Str [c])"
| "get_first ev (Arr xs) = Inr (case xs of [] \<Rightarrow> Undefined | x # ys \<Rightarrow> x)"
| "get_first ev (Obj kvs) = Inr (case map_of kvs ''0'' of None \<Rightarrow> Undefined | Some v \<Rightarrow> v)"

text \<open>\<^verbatim>\<open>v > 0\<close>.\<close>

fun gt_zero :: "env \<Rightarrow> jsval \<Rightarrow> string + bool" where
  "gt_zero ev Undefined = Inr False"
| "gt_zero ev Null = Inr False"
| "gt_zero ev (Bool b) = Inr b"
| "gt_zero ev (Num n) = Inr (0 < n)"
| "gt_zero ev v = coerced_gt_zero ev v"

text \<open>\<^verbatim>\<open>typeof v === 'number'\<close>, \<^verbatim>\<open>Array.isArray(v)\<close> and \<^verbatim>\<open>typeof v === 'object' && v !== null\<close>.\<close>

fun is_number :: "jsval \<Rightarrow> bool" where
  "is_number (Num n) = True"
| "is_number v = False"

fun isArray :: "jsval \<Rightarrow> bool" where
  "isArray (Arr xs) = True"
| "isArray v = False"

fun is_object :: "jsval \<Rightarrow> bool" where
  "is_object (Arr xs) = True"
| "is_object (Obj kvs) = True"
| "is_object v = False"

text \<open>
  \<^verbatim>\<open>a && b\<close> over values that may throw: \<open>b\<close> is evaluated only when \<open>a\<close> is truthy,
  and the value is \<open>a\<close> itself when it is falsy.
\<close>

definition js_and :: "string + jsval \<Rightarrow> string + jsval \<Rightarrow> string + jsval" where
  "js_and a b = (case a of Inl e \<Rightarrow> Inl e | Inr x \<Rightarrow> if truthy x then b else Inr x)"

text \<open>Sequencing of expressions that may throw.\<close>

definition thenE :: "string + 'a \<Rightarrow> ('a \<Rightarrow> string + 'b) \<Rightarrow> string + 'b" where
  "thenE a f = (case a of Inl e \<Rightarrow> Inl e | Inr x \<Rightarrow> f x)"

text \<open>\<^verbatim>\<open>${v}\<close> inside a template string, for a parsed value and for a header value.\<close>

fun template :: "env \<Rightarrow> jsval \<Rightarrow> string + string" where
  "template ev Undefined = Inr ''undefined''"
| "template ev Null = Inr ''null''"
| "template ev (Bool b) = Inr (if b then ''true'' else ''false'')"
| "template ev (Num n) = Inr (show_int n)"
| "template ev (Str s) = Inr s"
| "template ev v = coerced_string ev v"

fun template_header :: "string option \<Rightarrow> string" where
  "template_header None = ''null''"
| "template_header (Some h) = h"

section \<open>The check routines\<close>

subsection \<open>API checks\<close>

text \<open>
  Each routine is a \<^verbatim>\<open>try\<close> block and a \<^verbatim>\<open>catch\<close> block. The \<^verbatim>\<open>try\<close> block of
  routine \<open>f\<close> is \<open>f_try\<close>.
\<close>

definition testGetBritEdgeInfo_try :: "env \<Rightarrow> unit action" where
  "testGetBritEdgeInfo_try ev st =
       (andThen (fetch ev (baseURL st @ ''/GetBritEdgeInfo'')) (\<lambda>response.
          andThen (json response) (\<lambda>d.
            if resp_status response = 200 then
              andThen (lift (js_and (get_prop ev d ''company'')
                  (thenE (get_prop ev d ''company'') (\<lambda>c. get_prop ev c ''name'')))) (\<lambda>hasCompany.
              andThen (lift (js_and (get_prop ev d ''stats'')
                  (thenE (get_prop ev d ''stats'') (\<lambda>s.
                   thenE (get_prop ev s ''totalEmployees'') (\<lambda>n. Inr (Bool (is_number n))))))) (\<lambda>hasStats.
              andThen (lift (js_and
                  (thenE (get_prop ev d ''locations'') (\<lambda>l. Inr (Bool (isArray l))))
                  (thenE (get_prop ev d ''locations'') (\<lambda>l.
                   thenE (get_prop ev l ''length'') (\<lambda>n.
                   thenE (gt_zero ev n) (\<lambda>b. Inr (Bool b))))))) (\<lambda>hasLocations.
                if truthy hasCompany \<and> truthy hasStats \<and> truthy hasLocations then
                  andThen (lift (thenE (get_prop ev d ''stats'') (\<lambda>s.
                      thenE (get_prop ev s ''totalEmployees'') (template ev)))) (\<lambda>employees.
                  andThen (lift (thenE (get_prop ev d ''locations'') (\<lambda>l.
                      thenE (get_prop ev l ''length'') (template ev)))) (\<lambda>locations.
                    logS ''API: GetBritEdgeInfo'' True
                      (''Valid company data returned ('' @ employees @ '' employees, ''
                         @ locations @ '' locations)'') Null))
                else
                  logS ''API: GetBritEdgeInfo'' False ''Invalid response structure'' d)))
            else
              logS ''API: GetBritEdgeInfo'' False
                (''HTTP '' @ show_nat (resp_status response) @ '' error'') Null)) st)"

definition testGetBritEdgeInfo :: "env \<Rightarrow> state \<Rightarrow> state" where
  "testGetBritEdgeInfo ev =
     try_catch (testGetBritEdgeInfo_try ev)
       (\<lambda>e. logResult ''API: GetBritEdgeInfo'' False (''Network error: '' @ e) Null)"

text \<open>
  The \<^verbatim>\<open>try\<close> blocks of \<^verbatim>\<open>testGetTestimonials\<close> and \<^verbatim>\<open>testGetCustomers\<close> differ only
  in their strings: the test name, the endpoint, the array property, the two
  properties required of its first element, and the two messages.
  \<open>listCheck_try\<close> is that block with the strings as arguments.
\<close>

definition listCheck_try ::
  "string \<Rightarrow> string \<Rightarrow> string \<Rightarrow> string \<Rightarrow> string \<Rightarrow> string \<Rightarrow> string \<Rightarrow> env \<Rightarrow> unit action" where
  "listCheck_try testName endpoint items field1 field2 passMsg failMsg ev st =
       (andThen (fetch ev (baseURL st @ ''/'' @ endpoint)) (\<lambda>response.
          andThen (json response) (\<lambda>d.
            if resp_status response = 200 then
              andThen (lift (thenE (get_prop ev d items) (\<lambda>l. Inr (Bool (isArray l))))) (\<lambda>hasItems.
              andThen (lift
                 (js_and
                   (js_and
                     (js_and (get_prop ev d items)
                        (thenE (get_prop ev d items) (\<lambda>l.
                         thenE (get_prop ev l ''length'') (\<lambda>n.
                         thenE (gt_zero ev n) (\<lambda>b. Inr (Bool b))))))
                     (thenE (get_prop ev d items) (\<lambda>l.
                      thenE (get_first ev l) (\<lambda>x. get_prop ev x field1))))
                   (thenE (get_prop ev d items) (\<lambda>l.
                    thenE (get_first ev l) (\<lambda>x. get_prop ev x field2))))) (\<lambda>hasValidStructure.
                if truthy hasItems \<and> truthy hasValidStructure then
                  andThen (lift (thenE (get_prop ev d items) (\<lambda>l.
                      thenE (get_prop ev l ''length'') (template ev)))) (\<lambda>n.
                    logS testName True (n @ passMsg) Null)
                else
                  logS testName False failMsg d))
            else
              logS testName False (''HTTP '' @ show_nat (resp_status response) @ '' error'') Null)) st)"

definition testGetTestimonials_try :: "env \<Rightarrow> unit action" where
  "testGetTestimonials_try =
     listCheck_try ''API: GetTestimonials'' ''GetTestimonials'' ''testimonials'' ''client'' ''rating''
       '' testimonials returned with valid structure'' ''Invalid testimonials structure''"

definition testGetTestimonials :: "env \<Rightarrow> state \<Rightarrow> state" where
  "testGetTestimonials ev =
     try_catch (testGetTestimonials_try ev)
       (\<lambda>e. logResult ''API: GetTestimonials'' False (''Network error: '' @ e) Null)"

definition testGetCustomers_try :: "env \<Rightarrow> unit action" where
  "testGetCustomers_try =
     listCheck_try ''API: GetCustomers'' ''GetCustomers'' ''customers'' ''customerId'' ''companyName''
       '' customers returned with valid structure'' ''Invalid customers structure''"

definition testGetCustomers :: "env \<Rightarrow> state \<Rightarrow> state" where
  "testGetCustomers ev =
     try_catch (testGetCustomers_try ev)
       (\<lambda>e. logResult ''API: GetCustomers'' False (''Network error: '' @ e) Null)"

subsection \<open>Security checks\<close>

text \<open>One entry of \<^verbatim>\<open>securityTests\<close>; a property the literal leaves out is \<open>None\<close>.\<close>

record securityTest =
  name :: string
  expected :: "string option"
  contains :: "string option"

definition securityTests :: "securityTest list" where
  "securityTests =
     [ \<lparr> name = ''X-Frame-Options'', expected = Some ''DENY'', contains = None \<rparr>,
       \<lparr> name = ''X-Content-Type-Options'', expected = Some ''nosniff'', contains = None \<rparr>,
       \<lparr> name = ''X-XSS-Protection'', expected = Some ''1; mode=block'', contains = None \<rparr>,
       \<lparr> name = ''Strict-Transport-Security'', expected = None, contains = Some ''max-age='' \<rparr> ]"

text \<open>
  The body of the \<^verbatim>\<open>forEach\<close> callback, from the counter before to the counter
  after. A missing property and an empty string are falsy, a \<^verbatim>\<open>null\<close> header too.
\<close>

definition headerStep :: "(string \<Rightarrow> string option) \<Rightarrow> nat \<Rightarrow> securityTest \<Rightarrow> nat" where
  "headerStep headers passedHeaders t =
     (let headerValue = headers (name t) in
      if (case expected t of None \<Rightarrow> False | Some e \<Rightarrow> e \<noteq> [] \<and> headerValue = Some e)
      then passedHeaders + 1
      else if (case contains t of None \<Rightarrow> False
               | Some c \<Rightarrow> c \<noteq> [] \<and>
                   (case headerValue of None \<Rightarrow> False | Some v \<Rightarrow> v \<noteq> [] \<and> includes_str v c))
      then passedHeaders + 1
      else passedHeaders)"

definition testSecurityHeaders_try :: "env \<Rightarrow> unit action" where
  "testSecurityHeaders_try ev st =
       (andThen (fetch ev (websiteURL st)) (\<lambda>response.
          let headers = resp_headers response;
              passedHeaders = foldl (headerStep headers) 0 securityTests;
              allPassed = (passedHeaders = length securityTests)
          in logS ''Security: Headers'' allPassed
               (show_nat passedHeaders @ ''/'' @ show_nat (length securityTests)
                  @ '' security headers correctly configured'') Null) st)"

definition testSecurityHeaders :: "env \<Rightarrow> state \<Rightarrow> state" where
  "testSecurityHeaders ev =
     try_catch (testSecurityHeaders_try ev)
       (\<lambda>e. logResult ''Security: Headers'' False (''Error checking headers: '' @ e) Null)"

definition testHTTPS_try :: "unit action" where
  "testHTTPS_try st =
     (let httpsTest = startsWith (websiteURL st) ''https://''
      in logS ''Security: HTTPS'' httpsTest
           (if httpsTest then ''Website uses HTTPS encryption'' else ''Website not using HTTPS'')
           Null st)"

definition testHTTPS :: "state \<Rightarrow> state" where
  "testHTTPS =
     try_catch testHTTPS_try
       (\<lambda>e. logResult ''Security: HTTPS'' False (''HTTPS test failed: '' @ e) Null)"

definition testCORS_try :: "env \<Rightarrow> unit action" where
  "testCORS_try ev st =
       (andThen (fetch ev (baseURL st @ ''/GetBritEdgeInfo'')) (\<lambda>response.
          let corsHeader = resp_headers response ''Access-Control-Allow-Origin'';
              corsConfigured = (corsHeader = Some ''*'' \<or> corsHeader = Some (websiteURL st))
          in logS ''Security: CORS'' corsConfigured
               (if corsConfigured
                then ''CORS properly configured: '' @ template_header corsHeader
                else ''CORS not configured correctly'') Null) st)"

definition testCORS :: "env \<Rightarrow> state \<Rightarrow> state" where
  "testCORS ev =
     try_catch (testCORS_try ev)
       (\<lambda>e. logResult ''Security: CORS'' False (''CORS test failed: '' @ e) Null)"

subsection \<open>Performance check\<close>

text \<open>The \<^verbatim>\<open>endpoints\<close> array, as (name, url) pairs, built once before the loop.\<close>

definition endpoints :: "state \<Rightarrow> (string \<times> string) list" where
  "endpoints st =
     [ (''Website'', websiteURL st),
       (''GetBritEdgeInfo API'', baseURL st @ ''/GetBritEdgeInfo''),
       (''GetTestimonials API'', baseURL st @ ''/GetTestimonials''),
       (''GetCustomers API'', baseURL st @ ''/GetCustomers'') ]"

text \<open>One turn of the \<^verbatim>\<open>for\<close> loop.\<close>

definition timeEndpoint_try :: "env \<Rightarrow> string \<times> string \<Rightarrow> unit action" where
  "timeEndpoint_try ev endpoint =
       (andThen now (\<lambda>startT.
        andThen (fetch ev (snd endpoint)) (\<lambda>response.
        andThen now (\<lambda>endT.
          let responseTime = endT - startT;
              isGood = (responseTime < 2000)
          in logS (''Performance: '' @ fst endpoint) isGood
               (''Response time: '' @ show_int responseTime @ ''ms ''
                  @ (if isGood then ''(Good)'' else ''(Slow)'')) Null))))"

definition timeEndpoint :: "env \<Rightarrow> state \<Rightarrow> string \<times> string \<Rightarrow> state" where
  "timeEndpoint ev st endpoint =
     try_catch (timeEndpoint_try ev endpoint)
       (\<lambda>e. logResult (''Performance: '' @ fst endpoint) False
              (''Failed to test response time: '' @ e) Null)
       st"

definition testResponseTimes :: "env \<Rightarrow> state \<Rightarrow> state" where
  "testResponseTimes ev st = foldl (timeEndpoint ev) st (endpoints st)"

subsection \<open>Functionality checks\<close>

definition testWebsiteNavigation_try :: "env \<Rightarrow> unit action" where
  "testWebsiteNavigation_try ev st =
       (andThen (fetch ev (websiteURL st)) (\<lambda>response.
          andThen (text_of response) (\<lambda>html.
            let hasNavigation = (includes_str html ''nav-link'' \<or> includes_str html ''navigation'');
                hasContent = (includes_str html ''BritEdge'' \<and> includes_str html ''Manufacturing'');
                hasTailwind = includes_str html ''tailwindcss'';
                functionalityScore = length (filter id [hasNavigation, hasContent, hasTailwind])
            in logS ''Functionality: Website'' (functionalityScore = 3)
                 (''Website functionality check: '' @ show_nat functionalityScore
                    @ ''/3 elements found'') Null)) st)"

definition testWebsiteNavigation :: "env \<Rightarrow> state \<Rightarrow> state" where
  "testWebsiteNavigation ev =
     try_catch (testWebsiteNavigation_try ev)
       (\<lambda>e. logResult ''Functionality: Website'' False
              (''Website functionality test failed: '' @ e) Null)"

definition apiEndpoints :: "string list" where
  "apiEndpoints = [''GetBritEdgeInfo'', ''GetTestimonials'', ''GetCustomers'']"

text \<open>
  One turn of the loop of \<^verbatim>\<open>testJSONResponses\<close>, on the pair of the local counter
  \<^verbatim>\<open>validResponses\<close> and the state. Its \<^verbatim>\<open>catch\<close> block is empty.
\<close>

definition jsonStep :: "env \<Rightarrow> nat \<times> state \<Rightarrow> string \<Rightarrow> nat \<times> state" where
  "jsonStep ev acc endpoint =
     (case acc of (validResponses, st) \<Rightarrow>
        (case andThen (fetch ev (baseURL st @ ''/'' @ endpoint)) json st of
           Throw e st' \<Rightarrow> (validResponses, st')
         | Return d st' \<Rightarrow> (if is_object d then validResponses + 1 else validResponses, st')))"

definition testJSONResponses :: "env \<Rightarrow> state \<Rightarrow> state" where
  "testJSONResponses ev st =
     (case foldl (jsonStep ev) (0, st) apiEndpoints of (validResponses, st') \<Rightarrow>
        let allValid = (validResponses = length apiEndpoints)
        in logResult ''Functionality: JSON APIs'' allValid
             (show_nat validResponses @ ''/'' @ show_nat (length apiEndpoints)
                @ '' APIs return valid JSON'') Null st')"

section \<open>The summary\<close>

subsection \<open>Number arithmetic of the success rate\<close>

text \<open>
  \<^verbatim>\<open>((passedTests / totalTests) * 100).toFixed(1)\<close> is computed on IEEE 754 binary64
  values. A finite double is the rational number it stands for; \<open>fl\<close> rounds a
  rational to the nearest number with a 53-bit significand, ties to the even
  significand. The exponent range is left out: the operands here are counts, and
  the quotient of two counts below \<open>2^53\<close> and its product with 100 are far from
  overflow and underflow.
\<close>

datatype number = NaN | Infinity | Finite rat

definition round_even :: "rat \<Rightarrow> int" where
  "round_even y =
     (let f = \<lfloor>y\<rfloor>; d = y - of_int f
      in if d < 1/2 then f else if 1/2 < d then f + 1 else if even f then f else f + 1)"

text \<open>For \<open>r > 0\<close>, the integer \<open>e\<close> with \<open>2^e \<le> r < 2^(e+1)\<close>.\<close>

definition exponent :: "rat \<Rightarrow> int" where
  "exponent r =
     (case quotient_of r of (a, b) \<Rightarrow>
        let e = bitlen a - bitlen b in if 2 powi e \<le> r then e else e - 1)"

definition fl :: "rat \<Rightarrow> rat" where
  "fl r = (if r = 0 then 0
           else let u = 2 powi (exponent \<bar>r\<bar> - 52) in of_int (round_even (r / u)) * u)"

text \<open>\<^verbatim>\<open>a / b\<close> for two counts: dividing by zero does not throw, it gives NaN or Infinity.\<close>

definition js_divide :: "nat \<Rightarrow> nat \<Rightarrow> number" where
  "js_divide a b =
     (if b = 0 then (if a = 0 then NaN else Infinity)
      else Finite (fl (of_nat a / of_nat b)))"

text \<open>\<^verbatim>\<open>x * 100\<close>.\<close>

fun times100 :: "number \<Rightarrow> number" where
  "times100 NaN = NaN"
| "times100 Infinity = Infinity"
| "times100 (Finite q) = Finite (fl (q * 100))"

text \<open>The rendering of \<open>n\<close> tenths: all digits but the last, a point, the last digit.\<close>

definition tenths :: "nat \<Rightarrow> string" where
  "tenths n = show_nat (n div 10) @ ''.'' @ show_nat (n mod 10)"

text \<open>
  \<^verbatim>\<open>x.toFixed(1)\<close> for NaN, Infinity and a finite \<open>x\<close> with \<open>0 \<le> x < 10^21\<close>: the integer
  \<open>n\<close> for which \<open>n / 10 - x\<close> is closest to zero, the larger one if there are two.
\<close>

fun toFixed1 :: "number \<Rightarrow> string" where
  "toFixed1 NaN = ''NaN''"
| "toFixed1 Infinity = ''Infinity''"
| "toFixed1 (Finite x) = tenths (nat \<lfloor>10 * x + 1/2\<rfloor>)"

subsection \<open>generateSummary and runAllTests\<close>

record summary =
  total :: int
  passed :: int
  failed :: int
  successRate :: string
  executionTime :: int

text \<open>The object \<^verbatim>\<open>generateSummary\<close> returns: \<^verbatim>\<open>{ summary: {...}, results: this.results }\<close>.\<close>

record report =
  report_summary :: summary
  report_results :: "testResult list"

definition generateSummary :: "report action" where
  "generateSummary st =
     (let totalTests = length (results st);
          passedTests = length (filter (\<lambda>r. status r = ''PASS'') (results st));
          failedTests = int totalTests - int passedTests;
          rate = toFixed1 (times100 (js_divide passedTests totalTests));
          totalTime = clock st - startTime st
      in Return
           \<lparr> report_summary =
               \<lparr> total = int totalTests,
                 passed = int passedTests,
                 failed = failedTests,
                 successRate = rate,
                 executionTime = totalTime \<rparr>,
             report_results = results st \<rparr>
           st)"

text \<open>
  \<^verbatim>\<open>runAllTests\<close> awaits the nine checks in turn, \<open>runChecks\<close>, then calls
  \<^verbatim>\<open>generateSummary\<close> and drops what it returns.
\<close>

definition runChecks :: "env \<Rightarrow> state \<Rightarrow> state" where
  "runChecks ev st =
     (let st1 = testGetBritEdgeInfo ev st;
          st2 = testGetTestimonials ev st1;
          st3 = testGetCustomers ev st2;
          st4 = testJSONResponses ev st3;
          st5 = testSecurityHeaders ev st4;
          st6 = testHTTPS st5;
          st7 = testCORS ev st6;
          st8 = testResponseTimes ev st7
      in testWebsiteNavigation ev st8)"

definition runAllTests :: "env \<Rightarrow> unit action" where
  "runAllTests ev st = andThen generateSummary (\<lambda>r. Return ()) (runChecks ev st)"

section \<open>Notions used in the statements\<close>

subsection \<open>Replies and states\<close>

text \<open>
  The reply a request for \<open>url\<close> gets in state \<open>st\<close>, the state once it has settled,
  and the reply to the request made after \<open>i\<close> further ones.
\<close>

definition reply_at :: "env \<Rightarrow> state \<Rightarrow> string \<Rightarrow> reply" where
  "reply_at ev st url = net ev (length (requested st)) url"

definition after_fetch :: "env \<Rightarrow> string \<Rightarrow> state \<Rightarrow> state" where
  "after_fetch ev url st =
     st\<lparr> clock := clock st + int (latency (reply_at ev st url)),
         requested := requested st @ [url] \<rparr>"

definition nth_reply :: "env \<Rightarrow> state \<Rightarrow> nat \<Rightarrow> string \<Rightarrow> reply" where
  "nth_reply ev st i url = net ev (length (requested st) + i) url"

text \<open>The value a statement returns, if it returns.\<close>

definition returned :: "'a result \<Rightarrow> 'a option" where
  "returned r = (case r of Throw e st \<Rightarrow> None | Return x st \<Rightarrow> Some x)"

text \<open>Every entry of the log carries one of the two statuses \<^verbatim>\<open>logResult\<close> writes.\<close>

definition well_logged :: "state \<Rightarrow> bool" where
  "well_logged st = (\<forall>r \<in> set (results st). status r = ''PASS'' \<or> status r = ''FAIL'')"

text \<open>
  \<open>st''\<close> is \<open>st'\<close> with one more entry, a FAIL under \<open>testName\<close> whose message
  contains the text \<open>e\<close>.
\<close>

definition caught_as_FAIL :: "state \<Rightarrow> string \<Rightarrow> string \<Rightarrow> state \<Rightarrow> bool" where
  "caught_as_FAIL st' testName e st'' =
     (results st'' \<noteq> []
      \<and> st'' = logResult testName False (message (last (results st''))) Null st'
      \<and> includes_str (message (last (results st''))) e)"

text \<open>
  A statement that changes nothing but the log, and that only by one call of
  \<^verbatim>\<open>logResult\<close> under the name \<open>n\<close> as its last step.
\<close>

definition logs_once :: "string \<Rightarrow> unit action \<Rightarrow> bool" where
  "logs_once n k =
     (\<forall>st. (\<exists>e. k st = Throw e st) \<or> (\<exists>p m d. k st = Return () (logResult n p m d st)))"

text \<open>
  \<open>st'\<close> continues \<open>st\<close>: the log has grown by entries with the names \<open>names\<close>, the
  requests by \<open>urls\<close>, and the rest of the object is as it was.
\<close>

definition extends :: "state \<Rightarrow> string list \<Rightarrow> string list \<Rightarrow> state \<Rightarrow> bool" where
  "extends st names urls st' =
     (map test (results st') = map test (results st) @ names
      \<and> take (length (results st)) (results st') = results st
      \<and> requested st' = requested st @ urls
      \<and> baseURL st' = baseURL st \<and> websiteURL st' = websiteURL st
      \<and> startTime st' = startTime st)"

text \<open>The names of the entries one run writes, and the requests it makes, in order.\<close>

definition check_names :: "string list" where
  "check_names =
     [''API: GetBritEdgeInfo'', ''API: GetTestimonials'', ''API: GetCustomers'',
      ''Functionality: JSON APIs'', ''Security: Headers'', ''Security: HTTPS'', ''Security: CORS'',
      ''Performance: Website'', ''Performance: GetBritEdgeInfo API'',
      ''Performance: GetTestimonials API'', ''Performance: GetCustomers API'',
      ''Functionality: Website'']"

definition check_requests :: "state \<Rightarrow> string list" where
  "check_requests st =
     [baseURL st @ ''/GetBritEdgeInfo'', baseURL st @ ''/GetTestimonials'',
      baseURL st @ ''/GetCustomers'',
      baseURL st @ ''/GetBritEdgeInfo'', baseURL st @ ''/GetTestimonials'',
      baseURL st @ ''/GetCustomers'',
      websiteURL st,
      baseURL st @ ''/GetBritEdgeInfo'',
      websiteURL st, baseURL st @ ''/GetBritEdgeInfo'', baseURL st @ ''/GetTestimonials'',
      baseURL st @ ''/GetCustomers'',
      websiteURL st]"

subsection \<open>The predicates of the checks, in the spec's words\<close>

text \<open>
  How many of the expected security headers a response carries: three compared
  for equality, \<^verbatim>\<open>Strict-Transport-Security\<close> searched for \<^verbatim>\<open>max-age=\<close>.
\<close>

definition header_matches :: "(string \<Rightarrow> string option) \<Rightarrow> nat" where
  "header_matches h =
       of_bool (h ''X-Frame-Options'' = Some ''DENY'')
     + of_bool (h ''X-Content-Type-Options'' = Some ''nosniff'')
     + of_bool (h ''X-XSS-Protection'' = Some ''1; mode=block'')
     + of_bool (case h ''Strict-Transport-Security'' of None \<Rightarrow> False
                | Some v \<Rightarrow> includes_str v ''max-age='')"

text \<open>The score of a page: how many of the three tests on its text hold.\<close>

definition content_score :: "string \<Rightarrow> nat" where
  "content_score html =
       of_bool (includes_str html ''nav-link'' \<or> includes_str html ''navigation'')
     + of_bool (includes_str html ''BritEdge'' \<and> includes_str html ''Manufacturing'')
     + of_bool (includes_str html ''tailwindcss'')"

text \<open>The request resolved, and in less than 2000 ms.\<close>

definition fast_enough :: "reply \<Rightarrow> bool" where
  "fast_enough r = (case outcome r of Inl e \<Rightarrow> False | Inr resp \<Rightarrow> latency r < 2000)"

text \<open>The request resolved and its body parsed to an object or array.\<close>

definition valid_json :: "reply \<Rightarrow> bool" where
  "valid_json r =
     (case outcome r of Inl e \<Rightarrow> False
      | Inr resp \<Rightarrow> (case resp_json resp of Inl e \<Rightarrow> False | Inr d \<Rightarrow> is_object d))"

text \<open>The request resolved and parsing its body threw.\<close>

definition parse_throws :: "reply \<Rightarrow> bool" where
  "parse_throws r =
     (case outcome r of Inl e \<Rightarrow> False
      | Inr resp \<Rightarrow> (case resp_json resp of Inl e \<Rightarrow> True | Inr d \<Rightarrow> False))"

text \<open>
  The spec's words for the success rate, to compare with the source's:
  \<open>passed / total * 100\<close> rounded to one decimal, a half rounding up.
\<close>

definition rounded_percent :: "nat \<Rightarrow> nat \<Rightarrow> string" where
  "rounded_percent p t = tenths (nat \<lfloor>(of_nat p / of_nat t * 100) * 10 + 1/2 :: rat\<rfloor>)"

text \<open>\<open>passed / total * 100\<close> lies exactly halfway between two tenths.\<close>

definition halfway :: "nat \<Rightarrow> nat \<Rightarrow> bool" where
  "halfway p t = ((2000 * int p + int t) mod (2 * int t) = 0)"

subsection \<open>Example surroundings\<close>

text \<open>An engine around a given network.\<close>

definition surroundings :: "(nat \<Rightarrow> string \<Rightarrow> reply) \<Rightarrow> env" where
  "surroundings f =
     \<lparr> net = f,
       read_error = (\<lambda>v p. ''Cannot read properties of null''),
       coerced_gt_zero = (\<lambda>v. Inr False),
       coerced_string = (\<lambda>v. Inr ''[object Object]'') \<rparr>"

text \<open>The headers of the spec's header-match example.\<close>

definition healthy_headers :: "string \<Rightarrow> string option" where
  "healthy_headers =
     [''X-Frame-Options'' \<mapsto> ''DENY'',
      ''X-Content-Type-Options'' \<mapsto> ''nosniff'',
      ''X-XSS-Protection'' \<mapsto> ''1; mode=block'',
      ''Strict-Transport-Security'' \<mapsto> ''max-age=31536000'']"

text \<open>A response with those headers, an object as JSON body, and a page that lacks one keyword.\<close>

definition ok_response :: response where
  "ok_response =
     \<lparr> resp_status = 200,
       resp_headers = healthy_headers,
       resp_json = Inr (Obj [(''ok'', Bool True)]),
       resp_text = Inr ''<a class=nav-link>BritEdge</a> tailwindcss'' \<rparr>"

text \<open>A 503 error page: no headers of interest, and a body that is not JSON.\<close>

definition error_page :: response where
  "error_page =
     \<lparr> resp_status = 503,
       resp_headers = (\<lambda>h. None),
       resp_json = Inl ''Unexpected token < in JSON at position 0'',
       resp_text = Inr ''<html>Service Unavailable</html>'' \<rparr>"

text \<open>
  Four networks: one where every request is rejected, one that answers every
  request with the error page, one that does so for the first request only, and
  one that is healthy but takes 2500 ms over the third request.
\<close>

definition offline :: env where
  "offline = surroundings (\<lambda>n url. \<lparr> latency = 5, outcome = Inl ''Failed to fetch'' \<rparr>)"

definition unavailable :: env where
  "unavailable = surroundings (\<lambda>n url. \<lparr> latency = 40, outcome = Inr error_page \<rparr>)"

definition first_broken :: env where
  "first_broken =
     surroundings (\<lambda>n url. \<lparr> latency = 40,
                              outcome = Inr (if n = 0 then error_page else ok_response) \<rparr>)"

definition third_slow :: env where
  "third_slow =
     surroundings (\<lambda>n url. \<lparr> latency = (if n = 2 then 2500 else 120),
                              outcome = Inr ok_response \<rparr>)"

text \<open>
  An entry with status PASS and one with status FAIL, a suite whose log holds \<open>p\<close>
  of the first and \<open>f\<close> of the second, and the rate \<^verbatim>\<open>generateSummary\<close> reports.
\<close>

definition pass_entry :: testResult where
  "pass_entry = \<lparr> test = ''t'', status = ''PASS'', message = ''m'', timestamp = 0, data = Null \<rparr>"

definition fail_entry :: testResult where
  "fail_entry = \<lparr> test = ''t'', status = ''FAIL'', message = ''m'', timestamp = 0, data = Null \<rparr>"

definition log_of :: "nat \<Rightarrow> nat \<Rightarrow> state" where
  "log_of p f = (constructor 0)\<lparr> results := replicate p pass_entry @ replicate f fail_entry \<rparr>"

definition reported_rate :: "state \<Rightarrow> string option" where
  "reported_rate st =
     (case generateSummary st of Throw e st' \<Rightarrow> None
      | Return r st' \<Rightarrow> Some (successRate (report_summary r)))"

section \<open>Properties\<close>

subsection \<open>Statements and the state\<close>

lemma lift_simps [simp]:
  "lift (Inl e) st = Throw e st" "lift (Inr x) st = Return x st"
  by (simp_all add: lift_def)

lemma fetch_eq:
  "fetch ev url st =
     (case outcome (reply_at ev st url) of
        Inl e \<Rightarrow> Throw e (after_fetch ev url st)
      | Inr resp \<Rightarrow> Return resp (after_fetch ev url st))"
  by (simp add: fetch_def reply_at_def after_fetch_def Let_def split: sum.split)

lemma after_fetch_fields [simp]:
  "results (after_fetch ev url st) = results st"
  "baseURL (after_fetch ev url st) = baseURL st"
  "websiteURL (after_fetch ev url st) = websiteURL st"
  "startTime (after_fetch ev url st) = startTime st"
  "requested (after_fetch ev url st) = requested st @ [url]"
  "clock (after_fetch ev url st) = clock st + int (latency (reply_at ev st url))"
  by (simp_all add: after_fetch_def)

lemma logResult_fields [simp]:
  "results (logResult n p m d st) = results st @
     [\<lparr> test = n, status = (if p then ''PASS'' else ''FAIL''), message = m,
        timestamp = clock st, data = d \<rparr>]"
  "baseURL (logResult n p m d st) = baseURL st"
  "websiteURL (logResult n p m d st) = websiteURL st"
  "startTime (logResult n p m d st) = startTime st"
  "requested (logResult n p m d st) = requested st"
  "clock (logResult n p m d st) = clock st"
  by (simp_all add: logResult_def)

lemma constructor_fields [simp]:
  "results (constructor t) = []"
  "requested (constructor t) = []"
  "clock (constructor t) = t"
  "startTime (constructor t) = t"
  "baseURL (constructor t) = ''https://func-britedge-assignment.azurewebsites.net/api''"
  "websiteURL (constructor t) = ''https://thankful-sand-085c06103.2.azurestaticapps.net''"
  by (simp_all add: constructor_def)

lemma show_digits:
  "show_nat 0 = ''0''" "show_nat 1 = ''1''" "show_nat 2 = ''2''" "show_nat 3 = ''3''"
  "show_nat 4 = ''4''" "show_nat (Suc 0) = ''1''" "show_nat (Suc (Suc 0)) = ''2''"
  "show_nat (Suc (Suc (Suc 0))) = ''3''" "show_nat (Suc (Suc (Suc (Suc 0)))) = ''4''"
  by (simp_all add: show_nat.simps digit_def)

lemma andThen_fetch:
  "andThen (fetch ev url) f st =
     (case outcome (reply_at ev st url) of
        Inl e \<Rightarrow> Throw e (after_fetch ev url st)
      | Inr resp \<Rightarrow> f resp (after_fetch ev url st))"
  by (simp add: andThen_def fetch_eq split: sum.split)

lemma andThen_lift:
  "andThen (lift r) f st = (case r of Inl e \<Rightarrow> Throw e st | Inr x \<Rightarrow> f x st)"
  by (simp add: andThen_def split: sum.split)

lemma andThen_now: "andThen now f st = f (clock st) st"
  by (simp add: andThen_def now_def)

lemma testHTTPS_try_returns: "\<exists>st'. testHTTPS_try st = Return () st'"
  by (simp add: testHTTPS_try_def logS_def Let_def)

lemma includes_str_append: "includes_str (p @ e) e"
  by (induction p) (auto, cases e, auto)

lemma includes_str_nonempty: "includes_str v (c # cs) \<Longrightarrow> v \<noteq> []"
  by (cases v) auto

lemma foldl_headerStep: "foldl (headerStep h) 0 securityTests = header_matches h"
  by (cases "h ''Strict-Transport-Security''")
     (auto simp: securityTests_def headerStep_def header_matches_def Let_def of_bool_def
           dest: includes_str_nonempty)

lemma show_nat_digit: "n < 10 \<Longrightarrow> show_nat n = [digit n]"
  by (simp add: show_nat.simps)

lemma timeEndpoint_eq:
  "timeEndpoint ev st ep =
     (case outcome (reply_at ev st (snd ep)) of
        Inl e \<Rightarrow> logResult (''Performance: '' @ fst ep) False
                  (''Failed to test response time: '' @ e) Null (after_fetch ev (snd ep) st)
      | Inr resp \<Rightarrow> logResult (''Performance: '' @ fst ep) (latency (reply_at ev st (snd ep)) < 2000)
                  (''Response time: '' @ show_int (int (latency (reply_at ev st (snd ep)))) @ ''ms ''
                     @ (if latency (reply_at ev st (snd ep)) < 2000 then ''(Good)'' else ''(Slow)''))
                  Null (after_fetch ev (snd ep) st))"
  by (simp add: timeEndpoint_def timeEndpoint_try_def try_catch_def andThen_now andThen_fetch
      logS_def Let_def split: sum.split)

lemma timeEndpoint_fields:
  "\<exists>r. results (timeEndpoint ev st ep) = results st @ [r]
       \<and> test r = ''Performance: '' @ fst ep
       \<and> status r = (if fast_enough (reply_at ev st (snd ep)) then ''PASS'' else ''FAIL'')"
  "requested (timeEndpoint ev st ep) = requested st @ [snd ep]"
  "baseURL (timeEndpoint ev st ep) = baseURL st"
  "websiteURL (timeEndpoint ev st ep) = websiteURL st"
  by (auto simp: timeEndpoint_eq fast_enough_def split: sum.split)

lemma jsonStep_eq:
  "jsonStep ev (v, st) ep =
     (v + of_bool (valid_json (reply_at ev st (baseURL st @ ''/'' @ ep))),
      after_fetch ev (baseURL st @ ''/'' @ ep) st)"
  by (simp add: jsonStep_def andThen_fetch json_def lift_def valid_json_def
      split: sum.split)

lemma testJSONResponses_entry:
  "(let r0 = nth_reply ev st 0 (baseURL st @ ''/GetBritEdgeInfo'');
        r1 = nth_reply ev st 1 (baseURL st @ ''/GetTestimonials'');
        r2 = nth_reply ev st 2 (baseURL st @ ''/GetCustomers'');
        k = of_bool (valid_json r0) + of_bool (valid_json r1) + of_bool (valid_json r2)
    in results (testJSONResponses ev st) = results st @
          [\<lparr> test = ''Functionality: JSON APIs'',
             status = (if k = (3::nat) then ''PASS'' else ''FAIL''),
             message = show_nat k @ ''/3 APIs return valid JSON'',
             timestamp = clock st + int (latency r0) + int (latency r1) + int (latency r2),
             data = Null \<rparr>]
     \<and> requested (testJSONResponses ev st) = requested st @
          [baseURL st @ ''/GetBritEdgeInfo'', baseURL st @ ''/GetTestimonials'',
           baseURL st @ ''/GetCustomers''])"
proof -
  have len: "length apiEndpoints = 3" by (simp add: apiEndpoints_def)
  have s: "show_nat (length apiEndpoints) = ''3''"
    unfolding len by (simp add: show_digits)
  show ?thesis
    using s len
    by (auto simp: testJSONResponses_def apiEndpoints_def jsonStep_eq Let_def
        reply_at_def nth_reply_def of_bool_def eval_nat_numeral show_digits)
qed

subsection \<open>Every routine logs under its own name\<close>

lemma logs_once_log [simp]: "logs_once n (logS n p m d)"
  by (auto simp: logs_once_def logS_def)

lemma logs_once_if: "logs_once n k1 \<Longrightarrow> logs_once n k2 \<Longrightarrow> logs_once n (if c then k1 else k2)"
  by simp

lemma logs_once_lift: "(\<And>x. logs_once n (f x)) \<Longrightarrow> logs_once n (andThen (lift r) f)"
  by (cases r) (auto simp: logs_once_def andThen_def)

lemma logs_once_json: "(\<And>x. logs_once n (f x)) \<Longrightarrow> logs_once n (andThen (json resp) f)"
  by (simp add: json_def logs_once_lift)

lemma logs_once_text: "(\<And>x. logs_once n (f x)) \<Longrightarrow> logs_once n (andThen (text_of resp) f)"
  by (simp add: text_of_def logs_once_lift)

lemmas logs_once_intros =
  logs_once_log logs_once_if logs_once_lift logs_once_json logs_once_text

lemma try_catch_shape:
  assumes "body st = andThen (fetch ev url) f st" and "\<And>resp. logs_once n (f resp)"
  shows "\<exists>p m d. try_catch body (\<lambda>e. logResult n False (pre @ e) Null) st
           = logResult n p m d (after_fetch ev url st)"
proof (cases "outcome (reply_at ev st url)")
  case (Inl e)
  then have "try_catch body (\<lambda>e. logResult n False (pre @ e) Null) st
      = logResult n False (pre @ e) Null (after_fetch ev url st)"
    by (simp add: try_catch_def assms(1) andThen_fetch)
  then show ?thesis by blast
next
  case (Inr resp)
  let ?s = "after_fetch ev url st"
  from assms(2) [of resp]
  consider e where "f resp ?s = Throw e ?s"
    | p m d where "f resp ?s = Return () (logResult n p m d ?s)"
    unfolding logs_once_def by blast
  then show ?thesis
  proof cases
    case 1
    then have "try_catch body (\<lambda>e. logResult n False (pre @ e) Null) st
        = logResult n False (pre @ e) Null ?s"
      by (simp add: try_catch_def assms(1) andThen_fetch Inr)
    then show ?thesis by blast
  next
    case 2
    then have "try_catch body (\<lambda>e. logResult n False (pre @ e) Null) st = logResult n p m d ?s"
      by (simp add: try_catch_def assms(1) andThen_fetch Inr)
    then show ?thesis by blast
  qed
qed

lemma testGetBritEdgeInfo_shape:
  "\<exists>p m d. testGetBritEdgeInfo ev st =
     logResult ''API: GetBritEdgeInfo'' p m d (after_fetch ev (baseURL st @ ''/GetBritEdgeInfo'') st)"
  unfolding testGetBritEdgeInfo_def
  by (rule try_catch_shape, rule testGetBritEdgeInfo_try_def) ((intro logs_once_intros | simp only: Let_def)+)

lemma listCheck_shape:
  "\<exists>p m d. try_catch (listCheck_try n ep items f1 f2 pm fm ev)
       (\<lambda>e. logResult n False (''Network error: '' @ e) Null) st =
     logResult n p m d (after_fetch ev (baseURL st @ ''/'' @ ep) st)"
  by (rule try_catch_shape, rule listCheck_try_def) ((intro logs_once_intros | simp only: Let_def)+)

lemma testSecurityHeaders_shape:
  "\<exists>p m d. testSecurityHeaders ev st =
     logResult ''Security: Headers'' p m d (after_fetch ev (websiteURL st) st)"
  unfolding testSecurityHeaders_def
  by (rule try_catch_shape, rule testSecurityHeaders_try_def) ((intro logs_once_intros | simp only: Let_def)+)

lemma testCORS_shape:
  "\<exists>p m d. testCORS ev st =
     logResult ''Security: CORS'' p m d (after_fetch ev (baseURL st @ ''/GetBritEdgeInfo'') st)"
  unfolding testCORS_def
  by (rule try_catch_shape, rule testCORS_try_def) ((intro logs_once_intros | simp only: Let_def)+)

lemma testWebsiteNavigation_shape:
  "\<exists>p m d. testWebsiteNavigation ev st =
     logResult ''Functionality: Website'' p m d (after_fetch ev (websiteURL st) st)"
  unfolding testWebsiteNavigation_def
  by (rule try_catch_shape, rule testWebsiteNavigation_try_def) ((intro logs_once_intros | simp only: Let_def)+)

lemma extends_shape:
  "\<exists>p m d. st' = logResult n p m d (after_fetch ev url st) \<Longrightarrow> extends st [n] [url] st'"
  by (auto simp: extends_def)

lemma extends_trans:
  "extends st ns us st' \<Longrightarrow> extends st' ns' us' st'' \<Longrightarrow> extends st (ns @ ns') (us @ us') st''"
proof -
  assume a: "extends st ns us st'" and b: "extends st' ns' us' st''"
  have l: "length (results st) \<le> length (results st')"
    using a unfolding extends_def by (metis le_add1 length_append length_map)
  have "take (length (results st)) (results st'') =
        take (length (results st)) (take (length (results st')) (results st''))"
    using l by (simp add: min_def)
  also have "\<dots> = results st" using a b unfolding extends_def by simp
  finally show ?thesis using a b by (simp add: extends_def)
qed

lemma extends_testGetBritEdgeInfo:
  "extends st [''API: GetBritEdgeInfo''] [baseURL st @ ''/GetBritEdgeInfo''] (testGetBritEdgeInfo ev st)"
  by (rule extends_shape) (rule testGetBritEdgeInfo_shape)

lemma extends_testGetTestimonials:
  "extends st [''API: GetTestimonials''] [baseURL st @ ''/GetTestimonials''] (testGetTestimonials ev st)"
  unfolding testGetTestimonials_def testGetTestimonials_try_def
  using extends_shape [OF listCheck_shape] by simp

lemma extends_testGetCustomers:
  "extends st [''API: GetCustomers''] [baseURL st @ ''/GetCustomers''] (testGetCustomers ev st)"
  unfolding testGetCustomers_def testGetCustomers_try_def
  using extends_shape [OF listCheck_shape] by simp

lemma extends_testJSONResponses:
  "extends st [''Functionality: JSON APIs'']
     [baseURL st @ ''/GetBritEdgeInfo'', baseURL st @ ''/GetTestimonials'', baseURL st @ ''/GetCustomers'']
     (testJSONResponses ev st)"
  by (simp add: extends_def testJSONResponses_def apiEndpoints_def jsonStep_eq Let_def)

lemma extends_testSecurityHeaders:
  "extends st [''Security: Headers''] [websiteURL st] (testSecurityHeaders ev st)"
  by (rule extends_shape) (rule testSecurityHeaders_shape)

lemma extends_testHTTPS:
  "extends st [''Security: HTTPS''] [] (testHTTPS st)"
  by (simp add: extends_def testHTTPS_def testHTTPS_try_def try_catch_def logS_def Let_def)

lemma extends_testCORS:
  "extends st [''Security: CORS''] [baseURL st @ ''/GetBritEdgeInfo''] (testCORS ev st)"
  by (rule extends_shape) (rule testCORS_shape)

lemma extends_timeEndpoint:
  "extends st [''Performance: '' @ fst ep] [snd ep] (timeEndpoint ev st ep)"
  by (auto simp: extends_def timeEndpoint_eq split: sum.split)

lemma extends_testResponseTimes:
  "extends st
     [''Performance: Website'', ''Performance: GetBritEdgeInfo API'',
      ''Performance: GetTestimonials API'', ''Performance: GetCustomers API'']
     [websiteURL st, baseURL st @ ''/GetBritEdgeInfo'', baseURL st @ ''/GetTestimonials'',
      baseURL st @ ''/GetCustomers'']
     (testResponseTimes ev st)"
proof -
  define s1 where "s1 = timeEndpoint ev st (''Website'', websiteURL st)"
  define s2 where "s2 = timeEndpoint ev s1 (''GetBritEdgeInfo API'', baseURL st @ ''/GetBritEdgeInfo'')"
  define s3 where "s3 = timeEndpoint ev s2 (''GetTestimonials API'', baseURL st @ ''/GetTestimonials'')"
  define s4 where "s4 = timeEndpoint ev s3 (''GetCustomers API'', baseURL st @ ''/GetCustomers'')"
  have run: "testResponseTimes ev st = s4"
    by (simp add: testResponseTimes_def endpoints_def s1_def s2_def s3_def s4_def)
  have e1: "extends st [''Performance: Website''] [websiteURL st] s1"
    using extends_timeEndpoint [of st "(''Website'', websiteURL st)" ev] by (simp add: s1_def)
  have e2: "extends s1 [''Performance: GetBritEdgeInfo API''] [baseURL st @ ''/GetBritEdgeInfo''] s2"
    using extends_timeEndpoint [of s1 "(''GetBritEdgeInfo API'', baseURL st @ ''/GetBritEdgeInfo'')" ev]
    by (simp add: s2_def)
  have e3: "extends s2 [''Performance: GetTestimonials API''] [baseURL st @ ''/GetTestimonials''] s3"
    using extends_timeEndpoint [of s2 "(''GetTestimonials API'', baseURL st @ ''/GetTestimonials'')" ev]
    by (simp add: s3_def)
  have e4: "extends s3 [''Performance: GetCustomers API''] [baseURL st @ ''/GetCustomers''] s4"
    using extends_timeEndpoint [of s3 "(''GetCustomers API'', baseURL st @ ''/GetCustomers'')" ev]
    by (simp add: s4_def)
  from extends_trans [OF extends_trans [OF extends_trans [OF e1 e2] e3] e4]
  show ?thesis by (simp add: run)
qed

lemma extends_testWebsiteNavigation:
  "extends st [''Functionality: Website''] [websiteURL st] (testWebsiteNavigation ev st)"
  by (rule extends_shape) (rule testWebsiteNavigation_shape)


lemma extends_runChecks:
  "extends st check_names (check_requests st) (runChecks ev st)"
proof -
  define s1 where "s1 = testGetBritEdgeInfo ev st"
  define s2 where "s2 = testGetTestimonials ev s1"
  define s3 where "s3 = testGetCustomers ev s2"
  define s4 where "s4 = testJSONResponses ev s3"
  define s5 where "s5 = testSecurityHeaders ev s4"
  define s6 where "s6 = testHTTPS s5"
  define s7 where "s7 = testCORS ev s6"
  define s8 where "s8 = testResponseTimes ev s7"
  define s9 where "s9 = testWebsiteNavigation ev s8"
  have run: "runChecks ev st = s9"
    by (simp add: runChecks_def Let_def s1_def s2_def s3_def s4_def s5_def s6_def s7_def s8_def s9_def)
  note e1 = extends_testGetBritEdgeInfo [of st ev, folded s1_def]
  note e2 = extends_trans [OF e1 extends_testGetTestimonials [of s1 ev, folded s2_def]]
  note e3 = extends_trans [OF e2 extends_testGetCustomers [of s2 ev, folded s3_def]]
  note e4 = extends_trans [OF e3 extends_testJSONResponses [of s3 ev, folded s4_def]]
  note e5 = extends_trans [OF e4 extends_testSecurityHeaders [of s4 ev, folded s5_def]]
  note e6 = extends_trans [OF e5 extends_testHTTPS [of s5, folded s6_def]]
  note e7 = extends_trans [OF e6 extends_testCORS [of s6 ev, folded s7_def]]
  note e8 = extends_trans [OF e7 extends_testResponseTimes [of s7 ev, folded s8_def]]
  note e9 = extends_trans [OF e8 extends_testWebsiteNavigation [of s8 ev, folded s9_def]]
  have b: "baseURL s1 = baseURL st" "baseURL s2 = baseURL st" "baseURL s3 = baseURL st"
    "baseURL s4 = baseURL st" "baseURL s5 = baseURL st" "baseURL s6 = baseURL st"
    "baseURL s7 = baseURL st" "baseURL s8 = baseURL st"
    "websiteURL s1 = websiteURL st" "websiteURL s2 = websiteURL st" "websiteURL s3 = websiteURL st"
    "websiteURL s4 = websiteURL st" "websiteURL s5 = websiteURL st" "websiteURL s6 = websiteURL st"
    "websiteURL s7 = websiteURL st" "websiteURL s8 = websiteURL st"
    using e1 e2 e3 e4 e5 e6 e7 e8 by (simp_all add: extends_def)
  from e9 show ?thesis
    by (simp add: run b check_names_def check_requests_def)
qed


subsection \<open>The statuses of the log\<close>

lemma filter_PASS_FAIL:
  "\<forall>r \<in> set xs. status r = ''PASS'' \<or> status r = ''FAIL'' \<Longrightarrow>
   length (filter (\<lambda>r. status r = ''PASS'') xs) + length (filter (\<lambda>r. status r = ''FAIL'') xs)
     = length xs"
  by (induction xs) auto

text \<open>
  C10. Every entry \<^verbatim>\<open>logResult\<close> appends has status \<^verbatim>\<open>'PASS'\<close> or \<^verbatim>\<open>'FAIL'\<close>, taken from
  its boolean argument, so a log written by \<^verbatim>\<open>logResult\<close> stays a log of such
  entries; on such a log \<^verbatim>\<open>generateSummary\<close> returns a failed count, computed as
  total minus passed, that equals the number of entries with status \<^verbatim>\<open>'FAIL'\<close>.
\<close>

theorem failed_counts_FAIL_entries:
  assumes "well_logged st"
  shows "well_logged (logResult n p m d st)
     \<and> status (last (results (logResult n p m d st))) = (if p then ''PASS'' else ''FAIL'')
     \<and> (\<exists>r. generateSummary st = Return r st
            \<and> failed (report_summary r) = total (report_summary r) - passed (report_summary r)
            \<and> failed (report_summary r)
                = int (length (filter (\<lambda>x. status x = ''FAIL'') (results st))))"
proof -
  have "well_logged (logResult n p m d st)"
    using assms by (auto simp: well_logged_def)
  moreover have "status (last (results (logResult n p m d st))) = (if p then ''PASS'' else ''FAIL'')"
    by simp
  moreover have "\<exists>r. generateSummary st = Return r st
            \<and> failed (report_summary r) = total (report_summary r) - passed (report_summary r)
            \<and> failed (report_summary r)
                = int (length (filter (\<lambda>x. status x = ''FAIL'') (results st)))"
    using filter_PASS_FAIL [of "results st"] assms
    by (simp add: generateSummary_def Let_def well_logged_def)
  ultimately show ?thesis by blast
qed

theorem failed_counts_FAIL_entries_witness:
  "well_logged (logResult ''b'' False ''no'' Null (constructor 0))
   \<and> well_logged (logResult ''a'' True ''ok'' Null (logResult ''b'' False ''no'' Null (constructor 0)))
   \<and> (\<exists>r. generateSummary (logResult ''b'' False ''no'' Null (constructor 0))
             = Return r (logResult ''b'' False ''no'' Null (constructor 0))
          \<and> failed (report_summary r) = 1)"
proof -
  define s where "s = logResult ''b'' False ''no'' Null (constructor 0)"
  have h: "well_logged s"
    by (simp add: s_def well_logged_def constructor_def)
  have c: "int (length (filter (\<lambda>x. status x = ''FAIL'') (results s))) = 1"
    by (simp add: s_def constructor_def)
  from failed_counts_FAIL_entries [OF h, of "''a''" True "''ok''" Null] h c
  show ?thesis unfolding s_def by auto
qed


subsection \<open>The summary reads and does not write\<close>

text \<open>
  C5. \<^verbatim>\<open>generateSummary\<close> returns its report and leaves the state as it was: the
  log and the list of requests made are unchanged, so it does no network I/O.
  Called again on the same log, at whatever time \<open>t\<close>, it returns the same total,
  passed and failed counts, and both reports carry the log itself.
\<close>

theorem generateSummary_twice:
  "\<exists>r r'. generateSummary st = Return r st
     \<and> generateSummary (st\<lparr>clock := t\<rparr>) = Return r' (st\<lparr>clock := t\<rparr>)
     \<and> report_results r = results st
     \<and> report_results r' = results st
     \<and> total (report_summary r') = total (report_summary r)
     \<and> passed (report_summary r') = passed (report_summary r)
     \<and> failed (report_summary r') = failed (report_summary r)"
  by (simp add: generateSummary_def Let_def)

subsection \<open>The HTTPS check\<close>

lemma websiteURL_before_testHTTPS:
  "websiteURL (testSecurityHeaders ev (testJSONResponses ev (testGetCustomers ev
      (testGetTestimonials ev (testGetBritEdgeInfo ev (constructor t))))))
     = ''https://thankful-sand-085c06103.2.azurestaticapps.net''"
proof -
  have "\<And>st ns us st'. extends st ns us st' \<Longrightarrow> websiteURL st' = websiteURL st"
    by (simp add: extends_def)
  then show ?thesis
    by (metis constructor_fields(6) extends_testGetBritEdgeInfo extends_testGetTestimonials
        extends_testGetCustomers extends_testJSONResponses extends_testSecurityHeaders)
qed

text \<open>
  C8. With the website URL the constructor sets, the prefix test of \<^verbatim>\<open>testHTTPS\<close>
  is true: its \<^verbatim>\<open>try\<close> block returns, so the \<^verbatim>\<open>catch\<close> block is not entered, and the
  routine appends exactly one entry, a PASS, without a request and without
  moving the clock.
\<close>

theorem testHTTPS_passes:
  assumes "websiteURL st = ''https://thankful-sand-085c06103.2.azurestaticapps.net''"
  shows "testHTTPS_try st =
           Return () (logResult ''Security: HTTPS'' True ''Website uses HTTPS encryption'' Null st)
     \<and> testHTTPS st = logResult ''Security: HTTPS'' True ''Website uses HTTPS encryption'' Null st
     \<and> results (testHTTPS st) = results st @
          [\<lparr> test = ''Security: HTTPS'', status = ''PASS'',
             message = ''Website uses HTTPS encryption'', timestamp = clock st, data = Null \<rparr>]
     \<and> requested (testHTTPS st) = requested st
     \<and> clock (testHTTPS st) = clock st"
  using assms
  by (simp add: testHTTPS_def testHTTPS_try_def try_catch_def logS_def startsWith_def Let_def)

theorem testHTTPS_passes_witness:
  "websiteURL (constructor 0) = ''https://thankful-sand-085c06103.2.azurestaticapps.net''
   \<and> results (testHTTPS (constructor 0)) =
        [\<lparr> test = ''Security: HTTPS'', status = ''PASS'',
           message = ''Website uses HTTPS encryption'', timestamp = 0, data = Null \<rparr>]
   \<and> requested (testHTTPS (constructor 0)) = []"
proof -
  have h: "websiteURL (constructor 0) = ''https://thankful-sand-085c06103.2.azurestaticapps.net''"
    by simp
  from testHTTPS_passes [OF h] h show ?thesis
    by simp
qed

subsection \<open>The website content check\<close>

text \<open>
  C7. When the page has been fetched and read, \<^verbatim>\<open>testWebsiteNavigation\<close> makes three
  tests on the HTML text (\<^verbatim>\<open>nav-link\<close> or \<^verbatim>\<open>navigation\<close>; \<^verbatim>\<open>BritEdge\<close> and
  \<^verbatim>\<open>Manufacturing\<close>; \<^verbatim>\<open>tailwindcss\<close>), counts the ones that hold into a score
  between 0 and 3, records PASS if and only if the score is 3, and writes the
  score into the message whether it passes or fails.
\<close>

theorem testWebsiteNavigation_score:
  assumes "outcome (reply_at ev st (websiteURL st)) = Inr resp" and "resp_text resp = Inr html"
  shows "content_score html \<le> 3
     \<and> (content_score html = 3 \<longleftrightarrow>
          (includes_str html ''nav-link'' \<or> includes_str html ''navigation'')
          \<and> includes_str html ''BritEdge'' \<and> includes_str html ''Manufacturing''
          \<and> includes_str html ''tailwindcss'')
     \<and> results (testWebsiteNavigation ev st) = results st @
          [\<lparr> test = ''Functionality: Website'',
             status = (if content_score html = 3 then ''PASS'' else ''FAIL''),
             message = ''Website functionality check: '' @ show_nat (content_score html)
                         @ ''/3 elements found'',
             timestamp = clock st + int (latency (reply_at ev st (websiteURL st))),
             data = Null \<rparr>]"
  using assms
  by (simp add: testWebsiteNavigation_def testWebsiteNavigation_try_def try_catch_def
      andThen_fetch text_of_def andThen_lift logS_def Let_def of_bool_def content_score_def)

theorem testWebsiteNavigation_score_witness:
  "outcome (reply_at third_slow (constructor 0) (websiteURL (constructor 0))) = Inr ok_response
   \<and> resp_text ok_response = Inr ''<a class=nav-link>BritEdge</a> tailwindcss''
   \<and> results (testWebsiteNavigation third_slow (constructor 0)) =
        [\<lparr> test = ''Functionality: Website'', status = ''FAIL'',
           message = ''Website functionality check: 2/3 elements found'',
           timestamp = 120, data = Null \<rparr>]"
proof -
  have h1: "outcome (reply_at third_slow (constructor 0) (websiteURL (constructor 0))) = Inr ok_response"
    by (simp add: reply_at_def third_slow_def surroundings_def)
  have h2: "resp_text ok_response = Inr ''<a class=nav-link>BritEdge</a> tailwindcss''"
    by (simp add: ok_response_def)
  have c: "content_score ''<a class=nav-link>BritEdge</a> tailwindcss'' = 2"
    by (simp add: content_score_def)
  from testWebsiteNavigation_score [OF h1 h2] h1 h2 show ?thesis
    by (simp add: c show_digits reply_at_def third_slow_def surroundings_def)
qed


subsection \<open>The security-header check\<close>

text \<open>
  C2, as stated, fails: \<^verbatim>\<open>securityTests\<close> holds four expected headers, not five.
\<close>

theorem securityTests_not_five:
  "length securityTests = 4 \<and> length securityTests \<noteq> 5"
  by (simp add: securityTests_def)

text \<open>
  C2, amended. The security-header check tests four expected headers:
  \<^verbatim>\<open>X-Frame-Options\<close>, \<^verbatim>\<open>X-Content-Type-Options\<close> and \<^verbatim>\<open>X-XSS-Protection\<close> by string
  equality with \<^verbatim>\<open>DENY\<close>, \<^verbatim>\<open>nosniff\<close> and \<^verbatim>\<open>1; mode=block\<close>, and
  \<^verbatim>\<open>Strict-Transport-Security\<close> by containment of \<^verbatim>\<open>max-age=\<close>. When the page
  has been fetched it records PASS if and only if all four match, and its message
  gives the number matched out of 4.
\<close>

theorem testSecurityHeaders_four:
  assumes "outcome (reply_at ev st (websiteURL st)) = Inr resp"
  shows "map name securityTests =
           [''X-Frame-Options'', ''X-Content-Type-Options'', ''X-XSS-Protection'',
            ''Strict-Transport-Security'']
     \<and> header_matches (resp_headers resp) \<le> 4
     \<and> (header_matches (resp_headers resp) = 4 \<longleftrightarrow>
          resp_headers resp ''X-Frame-Options'' = Some ''DENY''
          \<and> resp_headers resp ''X-Content-Type-Options'' = Some ''nosniff''
          \<and> resp_headers resp ''X-XSS-Protection'' = Some ''1; mode=block''
          \<and> (case resp_headers resp ''Strict-Transport-Security'' of None \<Rightarrow> False
              | Some v \<Rightarrow> includes_str v ''max-age=''))
     \<and> results (testSecurityHeaders ev st) = results st @
          [\<lparr> test = ''Security: Headers'',
             status = (if header_matches (resp_headers resp) = 4 then ''PASS'' else ''FAIL''),
             message = show_nat (header_matches (resp_headers resp))
                         @ ''/4 security headers correctly configured'',
             timestamp = clock st + int (latency (reply_at ev st (websiteURL st))),
             data = Null \<rparr>]"
proof -
  have len: "length securityTests = 4" by (simp add: securityTests_def)
  have "show_nat (length securityTests) = ''4''"
    unfolding len by (simp add: show_digits)
  moreover note len
  moreover have "header_matches (resp_headers resp) \<le> 4"
    by (simp add: header_matches_def of_bool_def)
  moreover have "map name securityTests =
           [''X-Frame-Options'', ''X-Content-Type-Options'', ''X-XSS-Protection'',
            ''Strict-Transport-Security'']"
    by (simp add: securityTests_def)
  moreover have "header_matches (resp_headers resp) = 4 \<longleftrightarrow>
          resp_headers resp ''X-Frame-Options'' = Some ''DENY''
          \<and> resp_headers resp ''X-Content-Type-Options'' = Some ''nosniff''
          \<and> resp_headers resp ''X-XSS-Protection'' = Some ''1; mode=block''
          \<and> (case resp_headers resp ''Strict-Transport-Security'' of None \<Rightarrow> False
              | Some v \<Rightarrow> includes_str v ''max-age='')"
    by (simp add: header_matches_def of_bool_def)
  ultimately show ?thesis
    using assms
    by (simp add: testSecurityHeaders_def testSecurityHeaders_try_def try_catch_def
        andThen_fetch logS_def Let_def foldl_headerStep)
qed

theorem testSecurityHeaders_four_witness:
  "outcome (reply_at third_slow (constructor 0) (websiteURL (constructor 0))) = Inr ok_response
   \<and> resp_headers ok_response = healthy_headers
   \<and> results (testSecurityHeaders third_slow (constructor 0)) =
        [\<lparr> test = ''Security: Headers'', status = ''PASS'',
           message = ''4/4 security headers correctly configured'',
           timestamp = 120, data = Null \<rparr>]"
proof -
  have h: "outcome (reply_at third_slow (constructor 0) (websiteURL (constructor 0))) = Inr ok_response"
    by (simp add: reply_at_def third_slow_def surroundings_def)
  have c: "header_matches (resp_headers ok_response) = 4"
    by (simp add: header_matches_def ok_response_def healthy_headers_def)
  from testSecurityHeaders_four [OF h] h show ?thesis
    by (simp add: c show_digits reply_at_def third_slow_def surroundings_def)
       (simp add: ok_response_def)
qed

subsection \<open>The response-time check\<close>

text \<open>
  C6. \<^verbatim>\<open>testResponseTimes\<close> requests its four fixed endpoints in turn and appends one
  entry for each. An entry is PASS exactly when its own request resolved with
  fewer than 2000 ms between the two clock readings around it, and FAIL
  otherwise, whatever the other three requests did: all four requests are always
  made. So an endpoint that takes 2500 ms is recorded FAIL while the endpoints
  that resolve under the threshold in the same run are recorded PASS.
\<close>

theorem testResponseTimes_independent:
  "\<exists>r0 r1 r2 r3.
      results (testResponseTimes ev st) = results st @ [r0, r1, r2, r3]
    \<and> map test [r0, r1, r2, r3] =
         [''Performance: Website'', ''Performance: GetBritEdgeInfo API'',
          ''Performance: GetTestimonials API'', ''Performance: GetCustomers API'']
    \<and> status r0 = (if fast_enough (nth_reply ev st 0 (websiteURL st)) then ''PASS'' else ''FAIL'')
    \<and> status r1 = (if fast_enough (nth_reply ev st 1 (baseURL st @ ''/GetBritEdgeInfo''))
                    then ''PASS'' else ''FAIL'')
    \<and> status r2 = (if fast_enough (nth_reply ev st 2 (baseURL st @ ''/GetTestimonials''))
                    then ''PASS'' else ''FAIL'')
    \<and> status r3 = (if fast_enough (nth_reply ev st 3 (baseURL st @ ''/GetCustomers''))
                    then ''PASS'' else ''FAIL'')
    \<and> requested (testResponseTimes ev st) = requested st @
         [websiteURL st, baseURL st @ ''/GetBritEdgeInfo'', baseURL st @ ''/GetTestimonials'',
          baseURL st @ ''/GetCustomers'']"
proof -
  define s1 where "s1 = timeEndpoint ev st (''Website'', websiteURL st)"
  define s2 where "s2 = timeEndpoint ev s1 (''GetBritEdgeInfo API'', baseURL st @ ''/GetBritEdgeInfo'')"
  define s3 where "s3 = timeEndpoint ev s2 (''GetTestimonials API'', baseURL st @ ''/GetTestimonials'')"
  define s4 where "s4 = timeEndpoint ev s3 (''GetCustomers API'', baseURL st @ ''/GetCustomers'')"
  have run: "testResponseTimes ev st = s4"
    by (simp add: testResponseTimes_def endpoints_def s1_def s2_def s3_def s4_def)
  obtain r0 where r0: "results s1 = results st @ [r0]" "test r0 = ''Performance: Website''"
      "status r0 = (if fast_enough (reply_at ev st (websiteURL st)) then ''PASS'' else ''FAIL'')"
    using timeEndpoint_fields(1) [of ev st "(''Website'', websiteURL st)"] unfolding s1_def by auto
  have q1: "requested s1 = requested st @ [websiteURL st]"
    by (simp add: s1_def timeEndpoint_fields)
  obtain r1 where r1: "results s2 = results s1 @ [r1]" "test r1 = ''Performance: GetBritEdgeInfo API''"
      "status r1 = (if fast_enough (reply_at ev s1 (baseURL st @ ''/GetBritEdgeInfo'')) then ''PASS'' else ''FAIL'')"
    using timeEndpoint_fields(1) [of ev s1 "(''GetBritEdgeInfo API'', baseURL st @ ''/GetBritEdgeInfo'')"]
    unfolding s2_def by auto
  have q2: "requested s2 = requested s1 @ [baseURL st @ ''/GetBritEdgeInfo'']"
    by (simp add: s2_def timeEndpoint_fields)
  obtain r2 where r2: "results s3 = results s2 @ [r2]" "test r2 = ''Performance: GetTestimonials API''"
      "status r2 = (if fast_enough (reply_at ev s2 (baseURL st @ ''/GetTestimonials'')) then ''PASS'' else ''FAIL'')"
    using timeEndpoint_fields(1) [of ev s2 "(''GetTestimonials API'', baseURL st @ ''/GetTestimonials'')"]
    unfolding s3_def by auto
  have q3: "requested s3 = requested s2 @ [baseURL st @ ''/GetTestimonials'']"
    by (simp add: s3_def timeEndpoint_fields)
  obtain r3 where r3: "results s4 = results s3 @ [r3]" "test r3 = ''Performance: GetCustomers API''"
      "status r3 = (if fast_enough (reply_at ev s3 (baseURL st @ ''/GetCustomers'')) then ''PASS'' else ''FAIL'')"
    using timeEndpoint_fields(1) [of ev s3 "(''GetCustomers API'', baseURL st @ ''/GetCustomers'')"]
    unfolding s4_def by auto
  have q4: "requested s4 = requested s3 @ [baseURL st @ ''/GetCustomers'']"
    by (simp add: s4_def timeEndpoint_fields)
  have n: "reply_at ev st (websiteURL st) = nth_reply ev st 0 (websiteURL st)"
    "reply_at ev s1 (baseURL st @ ''/GetBritEdgeInfo'') = nth_reply ev st 1 (baseURL st @ ''/GetBritEdgeInfo'')"
    "reply_at ev s2 (baseURL st @ ''/GetTestimonials'') = nth_reply ev st 2 (baseURL st @ ''/GetTestimonials'')"
    "reply_at ev s3 (baseURL st @ ''/GetCustomers'') = nth_reply ev st 3 (baseURL st @ ''/GetCustomers'')"
    by (simp_all add: reply_at_def nth_reply_def q1 q2 q3 eval_nat_numeral)
  show ?thesis
    unfolding run
    apply (rule exI [of _ r0], rule exI [of _ r1], rule exI [of _ r2], rule exI [of _ r3])
    using r0 r1 r2 r3 q1 q2 q3 q4 n by simp
qed


theorem testResponseTimes_independent_witness:
  "latency (nth_reply third_slow (constructor 0) 2 (baseURL (constructor 0) @ ''/GetTestimonials'')) = 2500
   \<and> map status (results (testResponseTimes third_slow (constructor 0)))
       = [''PASS'', ''PASS'', ''FAIL'', ''PASS'']"
proof -
  have f: "fast_enough (nth_reply third_slow (constructor 0) 0 (websiteURL (constructor 0)))"
    "fast_enough (nth_reply third_slow (constructor 0) 1 (baseURL (constructor 0) @ ''/GetBritEdgeInfo''))"
    "\<not> fast_enough (nth_reply third_slow (constructor 0) 2 (baseURL (constructor 0) @ ''/GetTestimonials''))"
    "fast_enough (nth_reply third_slow (constructor 0) 3 (baseURL (constructor 0) @ ''/GetCustomers''))"
    by (simp_all add: fast_enough_def nth_reply_def third_slow_def surroundings_def)
  have l: "latency (nth_reply third_slow (constructor 0) 2 (baseURL (constructor 0) @ ''/GetTestimonials'')) = 2500"
    by (simp add: nth_reply_def third_slow_def surroundings_def)
  from testResponseTimes_independent [of third_slow "constructor 0"]
  obtain r0 r1 r2 r3 where
    "results (testResponseTimes third_slow (constructor 0)) = results (constructor 0) @ [r0, r1, r2, r3]"
    "status r0 = (if fast_enough (nth_reply third_slow (constructor 0) 0 (websiteURL (constructor 0))) then ''PASS'' else ''FAIL'')"
    "status r1 = (if fast_enough (nth_reply third_slow (constructor 0) 1 (baseURL (constructor 0) @ ''/GetBritEdgeInfo'')) then ''PASS'' else ''FAIL'')"
    "status r2 = (if fast_enough (nth_reply third_slow (constructor 0) 2 (baseURL (constructor 0) @ ''/GetTestimonials'')) then ''PASS'' else ''FAIL'')"
    "status r3 = (if fast_enough (nth_reply third_slow (constructor 0) 3 (baseURL (constructor 0) @ ''/GetCustomers'')) then ''PASS'' else ''FAIL'')"
    by blast
  then have "map status (results (testResponseTimes third_slow (constructor 0)))
       = [''PASS'', ''PASS'', ''FAIL'', ''PASS'']"
    by (simp add: fast_enough_def nth_reply_def third_slow_def surroundings_def)
  with l show ?thesis by blast
qed

subsection \<open>The JSON-validity check\<close>

text \<open>
  C4. \<^verbatim>\<open>testJSONResponses\<close> goes through its three fixed endpoint names, always
  making all three requests, and counts the replies that resolve and parse to an
  object or array. It appends one entry: PASS if and only if the count is 3, with
  the count out of 3 in the message. A request or a parse that throws adds nothing
  to the count and nothing to the log. In particular, when one of the three
  bodies fails to parse and the other two are valid, the entry is FAIL with the
  message \<^verbatim>\<open>2/3 APIs return valid JSON\<close>.
\<close>

theorem testJSONResponses_counts:
  "(let r0 = nth_reply ev st 0 (baseURL st @ ''/GetBritEdgeInfo'');
        r1 = nth_reply ev st 1 (baseURL st @ ''/GetTestimonials'');
        r2 = nth_reply ev st 2 (baseURL st @ ''/GetCustomers'');
        k = of_bool (valid_json r0) + of_bool (valid_json r1) + of_bool (valid_json r2)
    in k \<le> (3::nat)
     \<and> results (testJSONResponses ev st) = results st @
          [\<lparr> test = ''Functionality: JSON APIs'',
             status = (if k = 3 then ''PASS'' else ''FAIL''),
             message = show_nat k @ ''/3 APIs return valid JSON'',
             timestamp = clock st + int (latency r0) + int (latency r1) + int (latency r2),
             data = Null \<rparr>]
     \<and> requested (testJSONResponses ev st) = requested st @
          [baseURL st @ ''/GetBritEdgeInfo'', baseURL st @ ''/GetTestimonials'',
           baseURL st @ ''/GetCustomers'']
     \<and> ((parse_throws r0 \<and> valid_json r1 \<and> valid_json r2)
          \<or> (valid_json r0 \<and> parse_throws r1 \<and> valid_json r2)
          \<or> (valid_json r0 \<and> valid_json r1 \<and> parse_throws r2)
         \<longrightarrow> k = 2 \<and> show_nat k @ ''/3 APIs return valid JSON'' = ''2/3 APIs return valid JSON''))"
proof -
  have p: "\<And>r. parse_throws r \<Longrightarrow> \<not> valid_json r"
    by (auto simp: parse_throws_def valid_json_def split: sum.splits)
  show ?thesis
    using testJSONResponses_entry [of ev st]
    by (auto simp: Let_def of_bool_def show_digits dest: p)
qed

theorem testJSONResponses_counts_witness:
  "parse_throws (nth_reply first_broken (constructor 0) 0 (baseURL (constructor 0) @ ''/GetBritEdgeInfo''))
   \<and> valid_json (nth_reply first_broken (constructor 0) 1 (baseURL (constructor 0) @ ''/GetTestimonials''))
   \<and> valid_json (nth_reply first_broken (constructor 0) 2 (baseURL (constructor 0) @ ''/GetCustomers''))
   \<and> results (testJSONResponses first_broken (constructor 0)) =
        [\<lparr> test = ''Functionality: JSON APIs'', status = ''FAIL'',
           message = ''2/3 APIs return valid JSON'', timestamp = 120, data = Null \<rparr>]
   \<and> length (requested (testJSONResponses first_broken (constructor 0))) = 3"
proof -
  have h: "parse_throws (nth_reply first_broken (constructor 0) 0 (baseURL (constructor 0) @ ''/GetBritEdgeInfo''))"
    "valid_json (nth_reply first_broken (constructor 0) 1 (baseURL (constructor 0) @ ''/GetTestimonials''))"
    "valid_json (nth_reply first_broken (constructor 0) 2 (baseURL (constructor 0) @ ''/GetCustomers''))"
    by (simp_all add: parse_throws_def valid_json_def nth_reply_def first_broken_def surroundings_def
        error_page_def ok_response_def)
  have n: "\<not> valid_json (nth_reply first_broken (constructor 0) 0 (baseURL (constructor 0) @ ''/GetBritEdgeInfo''))"
    by (simp add: valid_json_def nth_reply_def first_broken_def surroundings_def error_page_def)
  have l: "latency (nth_reply first_broken (constructor 0) 0 (baseURL (constructor 0) @ ''/GetBritEdgeInfo'')) = 40"
    "latency (nth_reply first_broken (constructor 0) 1 (baseURL (constructor 0) @ ''/GetTestimonials'')) = 40"
    "latency (nth_reply first_broken (constructor 0) 2 (baseURL (constructor 0) @ ''/GetCustomers'')) = 40"
    by (simp_all add: nth_reply_def first_broken_def surroundings_def)
  from testJSONResponses_counts [of first_broken "constructor 0"] h
  show ?thesis
    by (simp add: Let_def parse_throws_def valid_json_def nth_reply_def first_broken_def
        surroundings_def error_page_def ok_response_def show_digits)
qed


subsection \<open>The API checks parse before they look at the status\<close>

lemma listCheck_parse_error:
  assumes "outcome (reply_at ev st (baseURL st @ ''/'' @ ep)) = Inr resp" and "resp_json resp = Inl e"
  shows "listCheck_try n ep items f1 f2 pm fm ev st =
           Throw e (after_fetch ev (baseURL st @ ''/'' @ ep) st)"
  using assms by (simp add: listCheck_try_def andThen_fetch json_def andThen_lift)

lemma testGetBritEdgeInfo_parse_error:
  assumes "outcome (reply_at ev st (baseURL st @ ''/GetBritEdgeInfo'')) = Inr resp"
    and "resp_json resp = Inl e"
  shows "testGetBritEdgeInfo_try ev st =
           Throw e (after_fetch ev (baseURL st @ ''/GetBritEdgeInfo'') st)"
  using assms by (simp add: testGetBritEdgeInfo_try_def andThen_fetch json_def andThen_lift)

text \<open>For contrast: a body that parses, under a status other than 200.\<close>

lemma testGetBritEdgeInfo_http_error:
  assumes "outcome (reply_at ev st (baseURL st @ ''/GetBritEdgeInfo'')) = Inr resp"
    and "resp_json resp = Inr d" and "resp_status resp \<noteq> 200"
  shows "testGetBritEdgeInfo ev st =
           logResult ''API: GetBritEdgeInfo'' False
             (''HTTP '' @ show_nat (resp_status resp) @ '' error'') Null
             (after_fetch ev (baseURL st @ ''/GetBritEdgeInfo'') st)"
  using assms
  by (simp add: testGetBritEdgeInfo_def testGetBritEdgeInfo_try_def try_catch_def andThen_fetch
      json_def andThen_lift logS_def)

text \<open>
  C9. In \<^verbatim>\<open>testGetBritEdgeInfo\<close>, \<^verbatim>\<open>testGetTestimonials\<close> and \<^verbatim>\<open>testGetCustomers\<close> the
  body is parsed before the status is looked at. So a response whose body does
  not parse, whatever its status and in particular under a status other than 200,
  is recorded as a FAIL with the message \<^verbatim>\<open>Network error: \<close> and the parser's
  text, which is not the message \<^verbatim>\<open>HTTP <status> error\<close>.
\<close>

theorem parse_before_status:
  assumes "resp_json resp = Inl e"
  shows "(outcome (reply_at ev st (baseURL st @ ''/GetBritEdgeInfo'')) = Inr resp \<longrightarrow>
            testGetBritEdgeInfo ev st =
              logResult ''API: GetBritEdgeInfo'' False (''Network error: '' @ e) Null
                (after_fetch ev (baseURL st @ ''/GetBritEdgeInfo'') st))
       \<and> (outcome (reply_at ev st (baseURL st @ ''/GetTestimonials'')) = Inr resp \<longrightarrow>
            testGetTestimonials ev st =
              logResult ''API: GetTestimonials'' False (''Network error: '' @ e) Null
                (after_fetch ev (baseURL st @ ''/GetTestimonials'') st))
       \<and> (outcome (reply_at ev st (baseURL st @ ''/GetCustomers'')) = Inr resp \<longrightarrow>
            testGetCustomers ev st =
              logResult ''API: GetCustomers'' False (''Network error: '' @ e) Null
                (after_fetch ev (baseURL st @ ''/GetCustomers'') st))
       \<and> ''Network error: '' @ e \<noteq> ''HTTP '' @ show_nat (resp_status resp) @ '' error''"
proof -
  have "outcome (reply_at ev st (baseURL st @ ''/GetBritEdgeInfo'')) = Inr resp \<Longrightarrow>
            testGetBritEdgeInfo ev st =
              logResult ''API: GetBritEdgeInfo'' False (''Network error: '' @ e) Null
                (after_fetch ev (baseURL st @ ''/GetBritEdgeInfo'') st)"
    using testGetBritEdgeInfo_parse_error [OF _ assms]
    by (simp add: testGetBritEdgeInfo_def try_catch_def)
  moreover have "outcome (reply_at ev st (baseURL st @ ''/GetTestimonials'')) = Inr resp \<Longrightarrow>
            testGetTestimonials ev st =
              logResult ''API: GetTestimonials'' False (''Network error: '' @ e) Null
                (after_fetch ev (baseURL st @ ''/GetTestimonials'') st)"
    using listCheck_parse_error [OF _ assms, of ev st "''GetTestimonials''"]
    by (simp add: testGetTestimonials_def testGetTestimonials_try_def try_catch_def)
  moreover have "outcome (reply_at ev st (baseURL st @ ''/GetCustomers'')) = Inr resp \<Longrightarrow>
            testGetCustomers ev st =
              logResult ''API: GetCustomers'' False (''Network error: '' @ e) Null
                (after_fetch ev (baseURL st @ ''/GetCustomers'') st)"
    using listCheck_parse_error [OF _ assms, of ev st "''GetCustomers''"]
    by (simp add: testGetCustomers_def testGetCustomers_try_def try_catch_def)
  moreover have "''Network error: '' @ e \<noteq> ''HTTP '' @ show_nat (resp_status resp) @ '' error''"
    by simp
  ultimately show ?thesis by blast
qed

theorem parse_before_status_witness:
  "resp_json error_page = Inl ''Unexpected token < in JSON at position 0''
   \<and> resp_status error_page = 503
   \<and> outcome (reply_at unavailable (constructor 0) (baseURL (constructor 0) @ ''/GetBritEdgeInfo''))
       = Inr error_page
   \<and> outcome (reply_at unavailable (constructor 0) (baseURL (constructor 0) @ ''/GetTestimonials''))
       = Inr error_page
   \<and> outcome (reply_at unavailable (constructor 0) (baseURL (constructor 0) @ ''/GetCustomers''))
       = Inr error_page
   \<and> map message (results (testGetBritEdgeInfo unavailable (constructor 0)))
       = [''Network error: Unexpected token < in JSON at position 0'']
   \<and> map message (results (testGetTestimonials unavailable (constructor 0)))
       = [''Network error: Unexpected token < in JSON at position 0'']
   \<and> map message (results (testGetCustomers unavailable (constructor 0)))
       = [''Network error: Unexpected token < in JSON at position 0'']"
proof -
  have h: "resp_json error_page = Inl ''Unexpected token < in JSON at position 0''"
    "resp_status error_page = 503"
    by (simp_all add: error_page_def)
  have o: "\<And>url. outcome (reply_at unavailable (constructor 0) url) = Inr error_page"
    by (simp add: reply_at_def unavailable_def surroundings_def)
  from parse_before_status [OF h(1), of unavailable "constructor 0"] h o
  show ?thesis by simp
qed


subsection \<open>Errors thrown inside a check\<close>

lemma caught_by_handler:
  assumes "body st = Throw e st'"
  shows "caught_as_FAIL st' n e (try_catch body (\<lambda>e. logResult n False (pre @ e) Null) st)"
  using assms by (simp add: caught_as_FAIL_def try_catch_def includes_str_append)

lemma runAllTests_returns:
  "runAllTests ev st = Return () (runChecks ev st)"
  by (simp add: runAllTests_def andThen_def generateSummary_def Let_def)

text \<open>
  C3, as stated, fails for \<^verbatim>\<open>testJSONResponses\<close>: a parse error thrown there is
  caught, but the one entry the routine records does not contain its text.
\<close>

theorem json_check_drops_error_text:
  "andThen (fetch first_broken (baseURL (constructor 0) @ ''/GetBritEdgeInfo'')) json (constructor 0)
     = Throw ''Unexpected token < in JSON at position 0''
         (after_fetch first_broken (baseURL (constructor 0) @ ''/GetBritEdgeInfo'') (constructor 0))
   \<and> map message (results (testJSONResponses first_broken (constructor 0)))
       = [''2/3 APIs return valid JSON'']
   \<and> \<not> includes_str ''2/3 APIs return valid JSON'' ''Unexpected token < in JSON at position 0''"
proof -
  have "andThen (fetch first_broken (baseURL (constructor 0) @ ''/GetBritEdgeInfo'')) json (constructor 0)
     = Throw ''Unexpected token < in JSON at position 0''
         (after_fetch first_broken (baseURL (constructor 0) @ ''/GetBritEdgeInfo'') (constructor 0))"
    by (simp add: andThen_fetch json_def reply_at_def first_broken_def surroundings_def error_page_def)
  moreover have "map message (results (testJSONResponses first_broken (constructor 0)))
       = [''2/3 APIs return valid JSON'']"
    by (simp add: testJSONResponses_def apiEndpoints_def jsonStep_eq Let_def valid_json_def
        reply_at_def first_broken_def surroundings_def error_page_def ok_response_def show_digits)
  moreover have "\<not> includes_str ''2/3 APIs return valid JSON'' ''Unexpected token < in JSON at position 0''"
    by simp
  ultimately show ?thesis by blast
qed

text \<open>
  C3, amended. In every check routine but \<^verbatim>\<open>testJSONResponses\<close>, whatever the \<^verbatim>\<open>try\<close>
  block throws is caught inside the routine and recorded with \<^verbatim>\<open>logResult\<close> as one
  FAIL whose message contains the error's text (the \<^verbatim>\<open>try\<close> block of \<^verbatim>\<open>testHTTPS\<close>
  throws nothing). \<^verbatim>\<open>testJSONResponses\<close> catches what
  a request or a parse throws and records a single entry that holds the count of
  valid replies and no error text. No routine throws and none repeats a request:
  \<^verbatim>\<open>runAllTests\<close> always returns, having written its twelve entries under their
  fixed names in order and made its thirteen requests in order, whatever was
  thrown in any check.
\<close>

theorem errors_caught_and_reported:
  "(\<forall>e st'. testGetBritEdgeInfo_try ev st = Throw e st' \<longrightarrow>
        caught_as_FAIL st' ''API: GetBritEdgeInfo'' e (testGetBritEdgeInfo ev st))
   \<and> (\<forall>e st'. testGetTestimonials_try ev st = Throw e st' \<longrightarrow>
        caught_as_FAIL st' ''API: GetTestimonials'' e (testGetTestimonials ev st))
   \<and> (\<forall>e st'. testGetCustomers_try ev st = Throw e st' \<longrightarrow>
        caught_as_FAIL st' ''API: GetCustomers'' e (testGetCustomers ev st))
   \<and> (\<forall>e st'. testSecurityHeaders_try ev st = Throw e st' \<longrightarrow>
        caught_as_FAIL st' ''Security: Headers'' e (testSecurityHeaders ev st))
   \<and> (\<forall>e st'. testCORS_try ev st = Throw e st' \<longrightarrow>
        caught_as_FAIL st' ''Security: CORS'' e (testCORS ev st))
   \<and> (\<forall>e st'. timeEndpoint_try ev ep st = Throw e st' \<longrightarrow>
        caught_as_FAIL st' (''Performance: '' @ fst ep) e (timeEndpoint ev st ep))
   \<and> (\<forall>e st'. testWebsiteNavigation_try ev st = Throw e st' \<longrightarrow>
        caught_as_FAIL st' ''Functionality: Website'' e (testWebsiteNavigation ev st))
   \<and> (\<exists>st'. testHTTPS_try st = Return () st')
   \<and> (\<exists>k t. results (testJSONResponses ev st) = results st @
          [\<lparr> test = ''Functionality: JSON APIs'',
             status = (if k = 3 then ''PASS'' else ''FAIL''),
             message = show_nat k @ ''/3 APIs return valid JSON'',
             timestamp = t, data = Null \<rparr>])
   \<and> runAllTests ev st = Return () (runChecks ev st)
   \<and> extends st check_names (check_requests st) (runChecks ev st)"
proof -
  have "\<exists>k t. results (testJSONResponses ev st) = results st @
          [\<lparr> test = ''Functionality: JSON APIs'',
             status = (if k = 3 then ''PASS'' else ''FAIL''),
             message = show_nat k @ ''/3 APIs return valid JSON'',
             timestamp = t, data = Null \<rparr>]"
    using testJSONResponses_entry [of ev st] unfolding Let_def by blast
  then show ?thesis
    unfolding testGetBritEdgeInfo_def testGetTestimonials_def testGetCustomers_def
      testSecurityHeaders_def testCORS_def timeEndpoint_def testWebsiteNavigation_def
    by (intro conjI allI impI caught_by_handler runAllTests_returns extends_runChecks
        testHTTPS_try_returns)
qed


theorem errors_caught_and_reported_witness:
  "testGetBritEdgeInfo_try offline (constructor 0)
       = Throw ''Failed to fetch'' (after_fetch offline (baseURL (constructor 0) @ ''/GetBritEdgeInfo'') (constructor 0))
   \<and> testGetTestimonials_try offline (constructor 0)
       = Throw ''Failed to fetch'' (after_fetch offline (baseURL (constructor 0) @ ''/GetTestimonials'') (constructor 0))
   \<and> testGetCustomers_try offline (constructor 0)
       = Throw ''Failed to fetch'' (after_fetch offline (baseURL (constructor 0) @ ''/GetCustomers'') (constructor 0))
   \<and> testSecurityHeaders_try offline (constructor 0)
       = Throw ''Failed to fetch'' (after_fetch offline (websiteURL (constructor 0)) (constructor 0))
   \<and> testCORS_try offline (constructor 0)
       = Throw ''Failed to fetch'' (after_fetch offline (baseURL (constructor 0) @ ''/GetBritEdgeInfo'') (constructor 0))
   \<and> testWebsiteNavigation_try offline (constructor 0)
       = Throw ''Failed to fetch'' (after_fetch offline (websiteURL (constructor 0)) (constructor 0))
   \<and> timeEndpoint_try offline (''Website'', websiteURL (constructor 0)) (constructor 0)
       = Throw ''Failed to fetch'' (after_fetch offline (websiteURL (constructor 0)) (constructor 0))
   \<and> caught_as_FAIL (after_fetch offline (baseURL (constructor 0) @ ''/GetBritEdgeInfo'') (constructor 0))
       ''API: GetBritEdgeInfo'' ''Failed to fetch'' (testGetBritEdgeInfo offline (constructor 0))
   \<and> caught_as_FAIL (after_fetch offline (baseURL (constructor 0) @ ''/GetTestimonials'') (constructor 0))
       ''API: GetTestimonials'' ''Failed to fetch'' (testGetTestimonials offline (constructor 0))
   \<and> caught_as_FAIL (after_fetch offline (baseURL (constructor 0) @ ''/GetCustomers'') (constructor 0))
       ''API: GetCustomers'' ''Failed to fetch'' (testGetCustomers offline (constructor 0))
   \<and> caught_as_FAIL (after_fetch offline (websiteURL (constructor 0)) (constructor 0))
       ''Security: Headers'' ''Failed to fetch'' (testSecurityHeaders offline (constructor 0))
   \<and> caught_as_FAIL (after_fetch offline (baseURL (constructor 0) @ ''/GetBritEdgeInfo'') (constructor 0))
       ''Security: CORS'' ''Failed to fetch'' (testCORS offline (constructor 0))
   \<and> caught_as_FAIL (after_fetch offline (websiteURL (constructor 0)) (constructor 0))
       ''Functionality: Website'' ''Failed to fetch'' (testWebsiteNavigation offline (constructor 0))
   \<and> caught_as_FAIL (after_fetch offline (websiteURL (constructor 0)) (constructor 0))
       ''Performance: Website'' ''Failed to fetch''
       (timeEndpoint offline (constructor 0) (''Website'', websiteURL (constructor 0)))"
proof -
  have t:
    "testGetBritEdgeInfo_try offline (constructor 0)
       = Throw ''Failed to fetch'' (after_fetch offline (baseURL (constructor 0) @ ''/GetBritEdgeInfo'') (constructor 0))"
    "testGetTestimonials_try offline (constructor 0)
       = Throw ''Failed to fetch'' (after_fetch offline (baseURL (constructor 0) @ ''/GetTestimonials'') (constructor 0))"
    "testGetCustomers_try offline (constructor 0)
       = Throw ''Failed to fetch'' (after_fetch offline (baseURL (constructor 0) @ ''/GetCustomers'') (constructor 0))"
    "testSecurityHeaders_try offline (constructor 0)
       = Throw ''Failed to fetch'' (after_fetch offline (websiteURL (constructor 0)) (constructor 0))"
    "testCORS_try offline (constructor 0)
       = Throw ''Failed to fetch'' (after_fetch offline (baseURL (constructor 0) @ ''/GetBritEdgeInfo'') (constructor 0))"
    "testWebsiteNavigation_try offline (constructor 0)
       = Throw ''Failed to fetch'' (after_fetch offline (websiteURL (constructor 0)) (constructor 0))"
    "timeEndpoint_try offline (''Website'', websiteURL (constructor 0)) (constructor 0)
       = Throw ''Failed to fetch'' (after_fetch offline (websiteURL (constructor 0)) (constructor 0))"
    by (simp_all add: testGetBritEdgeInfo_try_def testGetTestimonials_try_def
        testGetCustomers_try_def listCheck_try_def testSecurityHeaders_try_def testCORS_try_def
        testWebsiteNavigation_try_def timeEndpoint_try_def andThen_fetch andThen_now
        reply_at_def offline_def surroundings_def)
  from errors_caught_and_reported
         [of offline "constructor 0" "(''Website'', websiteURL (constructor 0))"] t
  show ?thesis by (simp only: fst_conv append_Cons append_Nil)
qed


subsection \<open>The success rate\<close>

text \<open>
  Rounding to a double moves a positive number by at most the fraction \<open>2^-53\<close>
  of itself. The quotient of two counts, times 100, times 10, is therefore within
  \<open>3000 / 2^53\<close> of the exact value, which is less than the distance \<open>1 / (2 * total)\<close>
  that separates the exact value from a halfway point it does not sit on.
\<close>

lemma round_even_error: "\<bar>of_int (round_even y) - y\<bar> \<le> 1/2"
  unfolding round_even_def Let_def
  by (auto simp: abs_if) linarith+

lemma pow_bitlen:
  assumes "0 < (a::int)"
  shows "(2::rat) powi (bitlen a - 1) \<le> of_int a" and "of_int a < (2::rat) powi (bitlen a)"
proof -
  from bitlen_bounds [OF assms] have lo: "2 ^ nat (bitlen a - 1) \<le> a" and hi: "a < 2 ^ nat (bitlen a)"
    by auto
  have ge1: "1 \<le> bitlen a"
    using assms bitlen_eq_zero_iff [of a] bitlen_nonneg [of a] by linarith
  have "(of_int (2 ^ nat (bitlen a - 1)) :: rat) \<le> of_int a"
    using lo by (simp only: of_int_le_iff)
  then show "(2::rat) powi (bitlen a - 1) \<le> of_int a"
    using ge1 by (simp add: power_int_def)
  have "(of_int a :: rat) < of_int (2 ^ nat (bitlen a))"
    using hi by (simp only: of_int_less_iff)
  then show "of_int a < (2::rat) powi (bitlen a)"
    using ge1 by (simp add: power_int_def)
qed

lemma exponent_bounds:
  assumes "0 < r"
  shows "2 powi exponent r \<le> r" and "r < 2 powi (exponent r + 1)"
proof -
  obtain a b where q: "quotient_of r = (a, b)" by (cases "quotient_of r")
  have b: "0 < b" using q quotient_of_denom_pos by blast
  have r: "r = of_int a / of_int b" using q quotient_of_div by blast
  have a: "0 < a" using assms b r by (simp add: zero_less_divide_iff)
  define e where "e = bitlen a - bitlen b"
  have B: "0 < (of_int b :: rat)" using b by simp
  have lo: "2 powi (e - 1) \<le> r"
  proof -
    have "(2::rat) powi (e - 1) * of_int b \<le> 2 powi (e - 1) * 2 powi (bitlen b)"
      using pow_bitlen(2) [OF b] by (intro mult_left_mono) auto
    also have "\<dots> = 2 powi (bitlen a - 1)"
      by (simp add: e_def flip: power_int_add)
    also have "\<dots> \<le> of_int a" using pow_bitlen(1) [OF a] .
    finally show ?thesis using B by (simp add: r pos_le_divide_eq)
  qed
  have hi: "r < 2 powi (e + 1)"
  proof -
    have "of_int a < (2::rat) powi (bitlen a)" using pow_bitlen(2) [OF a] .
    also have "\<dots> = 2 powi (e + 1) * 2 powi (bitlen b - 1)"
      by (simp add: e_def flip: power_int_add)
    also have "\<dots> \<le> 2 powi (e + 1) * of_int b"
      using pow_bitlen(1) [OF b] by (intro mult_left_mono) auto
    finally show ?thesis using B by (simp add: r pos_divide_less_eq)
  qed
  have ex: "exponent r = (if 2 powi e \<le> r then e else e - 1)"
    by (simp add: exponent_def q e_def Let_def)
  show "2 powi exponent r \<le> r" using lo by (simp add: ex)
  show "r < 2 powi (exponent r + 1)" using hi by (auto simp: ex not_le)
qed

lemma fl_error:
  assumes "0 < r"
  shows "\<bar>fl r - r\<bar> \<le> r / 2 ^ 53"
proof -
  define u :: rat where "u = 2 powi (exponent r - 52)"
  have u: "0 < u" by (simp add: u_def)
  have fl: "fl r = of_int (round_even (r / u)) * u"
    using assms by (simp add: fl_def u_def Let_def)
  have "fl r - r = (of_int (round_even (r / u)) - r / u) * u"
    using u by (simp add: fl left_diff_distrib)
  then have "\<bar>fl r - r\<bar> = \<bar>of_int (round_even (r / u)) - r / u\<bar> * u"
    using u by (simp add: abs_mult)
  also have "\<dots> \<le> (1/2) * u"
    using round_even_error [of "r / u"] u by (intro mult_right_mono) auto
  also have "\<dots> = 2 powi exponent r / 2 ^ 53"
    by (simp add: u_def power_int_diff)
  also have "\<dots> \<le> r / 2 ^ 53"
    using exponent_bounds(1) [OF assms] by (simp add: divide_right_mono)
  finally show ?thesis .
qed


lemma fl_pos:
  assumes "0 < r"
  shows "0 < fl r" and "fl r \<le> 2 * r"
proof -
  have e: "\<bar>fl r - r\<bar> \<le> r / 2 ^ 53" using fl_error [OF assms] .
  have "r / 2 ^ 53 < r" using assms by (simp add: divide_less_eq)
  with e show "0 < fl r" by linarith
  from e \<open>r / 2 ^ 53 < r\<close> show "fl r \<le> 2 * r" by linarith
qed

lemma double_percent_close:
  assumes "0 < r" "r \<le> 1"
  shows "\<bar>10 * fl (fl r * 100) - 1000 * r\<bar> \<le> 3000 / 2 ^ 53"
proof -
  define q where "q = fl r"
  have q: "0 < q" "q \<le> 2" "\<bar>q - r\<bar> \<le> r / 2 ^ 53"
    using fl_pos [OF assms(1)] fl_error [OF assms(1)] assms(2) by (auto simp: q_def)
  have "0 < q * 100" using q by simp
  from fl_error [OF this] have x: "\<bar>fl (q * 100) - q * 100\<bar> \<le> q * 100 / 2 ^ 53" .
  have "q * 100 / 2 ^ 53 \<le> 200 / 2 ^ 53" using q by (simp add: divide_right_mono)
  moreover have "r / 2 ^ 53 \<le> 1 / 2 ^ 53" using assms by (simp add: divide_right_mono)
  ultimately show ?thesis using x q(3) unfolding q_def by linarith
qed

lemma floor_of_close:
  fixes x y :: rat and m d :: int
  assumes d: "0 < d" and m: "m mod d \<noteq> 0" and y: "y = of_int m / of_int d"
    and c: "\<bar>x - y\<bar> < 1 / of_int d"
  shows "\<lfloor>x\<rfloor> = m div d"
proof -
  define N where "N = m div d"
  define \<rho> where "\<rho> = m mod d"
  have \<rho>: "1 \<le> \<rho>" "\<rho> \<le> d - 1"
    using m pos_mod_bound [OF d, of m] pos_mod_sign [OF d, of m] unfolding \<rho>_def by linarith+
  have "m = d * N + \<rho>" by (simp add: N_def \<rho>_def)
  then have "(of_int m :: rat) = of_int d * of_int N + of_int \<rho>"
    by (metis of_int_add of_int_mult)
  then have yN: "y = of_int N + of_int \<rho> / of_int d"
    using d by (simp add: y field_simps)
  have D: "0 < (of_int d :: rat)" using d by simp
  have "(1::rat) \<le> of_int \<rho>" using \<rho>(1) by linarith
  then have lo: "1 / of_int d \<le> (of_int \<rho> :: rat) / of_int d"
    using D by (simp add: divide_right_mono)
  have "(of_int \<rho> :: rat) \<le> of_int d - 1" using \<rho>(2) by (metis of_int_1 of_int_diff of_int_le_iff)
  then have "(of_int \<rho> :: rat) / of_int d \<le> (of_int d - 1) / of_int d"
    using D by (simp add: divide_right_mono)
  also have "\<dots> = 1 - 1 / of_int d" using D by (simp add: field_simps)
  finally have hi: "(of_int \<rho> :: rat) / of_int d \<le> 1 - 1 / of_int d" .
  have "of_int N \<le> x" "x < of_int N + 1"
    using c lo hi yN by linarith+
  then show ?thesis unfolding N_def [symmetric] by (rule floor_unique)
qed

lemma floor_between:
  fixes x y :: rat and m d :: int
  assumes d: "0 < d" and y: "y = of_int m / of_int d" and c: "\<bar>x - y\<bar> < 1 / of_int d"
  shows "y - 1 \<le> of_int \<lfloor>x\<rfloor> \<and> of_int \<lfloor>x\<rfloor> \<le> y"
proof (cases "m mod d = 0")
  case False
  from floor_of_close [OF d False y c] have "\<lfloor>x\<rfloor> = m div d" .
  also have "\<dots> = \<lfloor>y\<rfloor>" by (simp add: y floor_divide_of_int_eq)
  finally have "\<lfloor>x\<rfloor> = \<lfloor>y\<rfloor>" .
  then show ?thesis by (simp, linarith)
next
  case True
  have D: "0 < (of_int d :: rat)" "(1::rat) \<le> of_int d" using d by simp_all
  then have d1: "1 / (of_int d :: rat) \<le> 1" by simp
  from True have "m = d * (m div d)" by auto
  then have "(of_int m :: rat) = of_int d * of_int (m div d)"
    by (metis of_int_mult)
  then have yN: "y = of_int (m div d)" using D by (simp add: y)
  have "x < of_int (m div d) + 1" using c d1 yN by linarith
  then have hi: "\<lfloor>x\<rfloor> \<le> m div d" by (simp add: floor_le_iff)
  have "of_int (m div d - 1) \<le> x" using c d1 yN by simp
  then have lo: "m div d - 1 \<le> \<lfloor>x\<rfloor>" by (simp only: le_floor_iff)
  have "(of_int (m div d - 1) :: rat) \<le> of_int \<lfloor>x\<rfloor>" "(of_int \<lfloor>x\<rfloor> :: rat) \<le> of_int (m div d)"
    using lo hi by (simp_all only: of_int_le_iff)
  then show ?thesis by (simp add: yN)
qed

lemma rate_close:
  fixes p t :: nat
  assumes t: "0 < t" "t < 2 ^ 32" and p: "p \<le> t"
  shows "\<bar>(10 * fl (fl (of_nat p / of_nat t) * 100) + 1/2)
          - of_int (2000 * int p + int t) / of_int (2 * int t)\<bar> < 1 / of_int (2 * int t)"
proof (cases "p = 0")
  case True
  with t show ?thesis by (simp add: fl_def)
next
  case False
  define r :: rat where "r = of_nat p / of_nat t"
  have r: "0 < r" "r \<le> 1" using False p t by (auto simp: r_def)
  have T: "0 < (of_nat t :: rat)" using t by simp
  have y: "1000 * r + 1/2 = of_int (2000 * int p + int t) / of_int (2 * int t)"
    using T by (simp add: r_def field_simps)
  have "(2 * of_nat t :: rat) < 2 * 2 ^ 32"
    using t(2) by (metis mult_strict_left_mono of_nat_less_numeral_power_cancel_iff zero_less_numeral)
  then have "3000 / 2 ^ 53 < 1 / (2 * of_nat t :: rat)"
    using T by (simp add: field_simps)
  with double_percent_close [OF r]
  have "\<bar>(10 * fl (fl r * 100) + 1/2) - (1000 * r + 1/2)\<bar> < 1 / of_int (2 * int t)"
    by simp
  then show ?thesis unfolding y by (simp add: r_def)
qed

lemma rate_nearest:
  fixes p t :: nat
  assumes t: "0 < t" "t < 2 ^ 32" and p: "p \<le> t"
    and nt: "(2000 * int p + int t) mod (2 * int t) \<noteq> 0"
  shows "\<lfloor>10 * fl (fl (of_nat p / of_nat t) * 100) + 1/2\<rfloor> = (2000 * int p + int t) div (2 * int t)"
proof -
  have d: "0 < 2 * int t" using t(1) by simp
  from floor_of_close [OF d nt refl rate_close [OF t p]] show ?thesis .
qed


lemma halfway_iff:
  assumes "0 < t"
  shows "halfway p t \<longleftrightarrow> (\<exists>k::int. (of_nat p / of_nat t * 100) * 10 = (of_int k + 1/2 :: rat))"
proof -
  have T: "0 < (of_nat t :: rat)" using assms by simp
  have eq: "\<And>k::int. (of_nat p / of_nat t * 100) * 10 = (of_int k + 1/2 :: rat)
              \<longleftrightarrow> 2000 * int p + int t = (k + 1) * (2 * int t)"
  proof -
    fix k :: int
    have "(of_nat p / of_nat t * 100) * 10 = (of_int k + 1/2 :: rat)
            \<longleftrightarrow> (2000 * of_nat p + of_nat t :: rat) = (of_int k + 1) * (2 * of_nat t)"
      using T by (simp add: field_simps)
    also have "\<dots> \<longleftrightarrow> (of_int (2000 * int p + int t) :: rat) = of_int ((k + 1) * (2 * int t))"
      by simp
    also have "\<dots> \<longleftrightarrow> 2000 * int p + int t = (k + 1) * (2 * int t)"
      by (simp only: of_int_eq_iff)
    finally show "(of_nat p / of_nat t * 100) * 10 = (of_int k + 1/2 :: rat)
              \<longleftrightarrow> 2000 * int p + int t = (k + 1) * (2 * int t)" .
  qed
  show ?thesis
  proof
    assume h: "halfway p t"
    have "(2000 * int p + int t) div (2 * int t) * (2 * int t)
            + (2000 * int p + int t) mod (2 * int t) = 2000 * int p + int t"
      by (rule div_mult_mod_eq)
    with h have "2000 * int p + int t = ((2000 * int p + int t) div (2 * int t) - 1 + 1) * (2 * int t)"
      by (simp add: halfway_def)
    then show "\<exists>k::int. (of_nat p / of_nat t * 100) * 10 = (of_int k + 1/2 :: rat)"
      unfolding eq by (rule exI)
  next
    assume "\<exists>k::int. (of_nat p / of_nat t * 100) * 10 = (of_int k + 1/2 :: rat)"
    then obtain k :: int where "2000 * int p + int t = (k + 1) * (2 * int t)"
      unfolding eq by blast
    then show "halfway p t" by (simp add: halfway_def)
  qed
qed

lemma fl_nonneg: "0 \<le> r \<Longrightarrow> 0 \<le> fl r"
  using fl_pos(1) [of r] by (cases "r = 0") (auto simp: fl_def intro: less_imp_le)

lemma percent_as_quotient:
  fixes p t :: nat
  assumes "0 < t"
  shows "(of_nat p / of_nat t * 100) * 10 + 1/2 = (of_int (2000 * int p + int t) / of_int (2 * int t) :: rat)"
  using assms by (simp add: field_simps)

lemma rounded_percent_div:
  assumes "0 < t"
  shows "rounded_percent p t = tenths (nat ((2000 * int p + int t) div (2 * int t)))"
  unfolding rounded_percent_def percent_as_quotient [OF assms]
  by (simp only: floor_divide_of_int_eq)

lemma summary_rate:
  "generateSummary st = Return r st' \<Longrightarrow>
   successRate (report_summary r) =
     toFixed1 (times100 (js_divide (length (filter (\<lambda>r. status r = ''PASS'') (results st)))
                                   (length (results st))))"
  by (auto simp: generateSummary_def Let_def)

lemma rate_of_nonempty:
  assumes "0 < t"
  shows "toFixed1 (times100 (js_divide p t))
           = tenths (nat \<lfloor>10 * fl (fl (of_nat p / of_nat t) * 100) + 1/2\<rfloor>)"
  using assms by (simp add: js_divide_def)

text \<open>
  C1, as stated, fails. On the empty log the division \<open>0 / 0\<close> is carried out; it
  does not throw, and the rate reported is the text \<^verbatim>\<open>NaN\<close>, neither a zero nor
  \<^verbatim>\<open>undefined\<close>. And with 23 of 80 entries passed the exact rate 28.75 lies halfway
  between two tenths: the doubles give \<^verbatim>\<open>28.7\<close> where rounding 28.75 gives 28.8.
\<close>

theorem empty_log_rate_is_NaN:
  "generateSummary (constructor 0) =
     Return \<lparr> report_summary = \<lparr> total = 0, passed = 0, failed = 0, successRate = ''NaN'',
                                  executionTime = 0 \<rparr>,
              report_results = [] \<rparr> (constructor 0)
   \<and> js_divide 0 0 = NaN
   \<and> ''NaN'' \<noteq> ''0'' \<and> ''NaN'' \<noteq> ''0.0'' \<and> ''NaN'' \<noteq> ''0%'' \<and> ''NaN'' \<noteq> ''undefined''
   \<and> reported_rate (log_of 23 57) = Some ''28.7''
   \<and> rounded_percent 23 80 = ''28.8''"
proof -
  have a: "generateSummary (constructor 0) =
     Return \<lparr> report_summary = \<lparr> total = 0, passed = 0, failed = 0, successRate = ''NaN'',
                                  executionTime = 0 \<rparr>,
              report_results = [] \<rparr> (constructor 0)"
    by (simp add: generateSummary_def Let_def js_divide_def)
  have b: "js_divide 0 0 = NaN" by (simp add: js_divide_def)
  have n: "nat \<lfloor>10 * fl (fl (23 / 80) * 100) + 1/2\<rfloor> = 287"
    by code_simp
  have t: "tenths 287 = ''28.7''" "tenths 288 = ''28.8''"
    by (simp_all add: tenths_def show_nat.simps digit_def)
  have c: "reported_rate (log_of 23 57) = Some ''28.7''"
    by (simp add: reported_rate_def log_of_def generateSummary_def Let_def pass_entry_def
        fail_entry_def rate_of_nonempty n t)
  have d: "rounded_percent 23 80 = ''28.8''"
    by (simp add: rounded_percent_div t)
  from a b c d show ?thesis by simp
qed

text \<open>
  C1, amended. For every result log \<^verbatim>\<open>generateSummary\<close> returns, without throwing,
  counts with \<open>passed + failed = total\<close>. For a log that is not empty (and has
  fewer than \<open>2^32\<close> entries, the most an array can hold) \<open>successRate\<close> is
  \<open>passed / total * 100\<close> rounded to one decimal: it is always a tenth nearest to
  that value, and it is the value rounded half up whenever the value does not
  lie exactly halfway between two tenths. For the empty log the division
  \<open>0 / 0\<close> is carried out, gives NaN, and \<open>successRate\<close> is the text \<^verbatim>\<open>NaN\<close>.
\<close>

theorem summary_counts_and_rate:
  "(let t = length (results st);
        p = length (filter (\<lambda>r. status r = ''PASS'') (results st))
    in \<exists>r. generateSummary st = Return r st
          \<and> total (report_summary r) = int t
          \<and> passed (report_summary r) = int p
          \<and> passed (report_summary r) + failed (report_summary r) = total (report_summary r)
          \<and> (t = 0 \<longrightarrow> js_divide p t = NaN \<and> successRate (report_summary r) = ''NaN'')
          \<and> (0 < t \<and> t < 2 ^ 32 \<and> \<not> halfway p t \<longrightarrow>
                successRate (report_summary r) = rounded_percent p t)
          \<and> (0 < t \<and> t < 2 ^ 32 \<longrightarrow>
                (\<exists>n. successRate (report_summary r) = tenths n
                    \<and> \<bar>of_nat n - (of_nat p / of_nat t * 100) * 10 :: rat\<bar> \<le> 1/2)))"
proof -
  define t where "t = length (results st)"
  define p where "p = length (filter (\<lambda>r. status r = ''PASS'') (results st))"
  define r where "r =
     \<lparr> report_summary =
         \<lparr> total = int t, passed = int p, failed = int t - int p,
           successRate = toFixed1 (times100 (js_divide p t)),
           executionTime = clock st - startTime st \<rparr>,
       report_results = results st \<rparr>"
  have pt: "p \<le> t" by (simp add: p_def t_def)
  have run: "generateSummary st = Return r st"
    by (simp add: generateSummary_def Let_def r_def t_def p_def)
  have empty: "js_divide p t = NaN \<and> successRate (report_summary r) = ''NaN''" if "t = 0"
    using that pt by (simp add: r_def js_divide_def)
  have exact: "successRate (report_summary r) = rounded_percent p t"
    if "0 < t" "t < 2 ^ 32" "\<not> halfway p t"
  proof -
    from that(3) have nt: "(2000 * int p + int t) mod (2 * int t) \<noteq> 0"
      by (simp add: halfway_def)
    show ?thesis
      by (simp add: r_def rate_of_nonempty [OF that(1)] rounded_percent_div [OF that(1)]
          rate_nearest [OF that(1,2) pt nt])
  qed
  have near: "\<exists>n. successRate (report_summary r) = tenths n
                    \<and> \<bar>of_nat n - (of_nat p / of_nat t * 100) * 10 :: rat\<bar> \<le> 1/2"
    if "0 < t" "t < 2 ^ 32"
  proof -
    define x :: rat where "x = 10 * fl (fl (of_nat p / of_nat t) * 100) + 1/2"
    define y :: rat where "y = of_int (2000 * int p + int t) / of_int (2 * int t)"
    have "0 \<le> fl (fl (of_nat p / of_nat t) * 100)"
      by (intro fl_nonneg mult_nonneg_nonneg) simp_all
    then have "0 \<le> \<lfloor>x\<rfloor>" by (simp add: x_def)
    then have n: "(of_nat (nat \<lfloor>x\<rfloor>) :: rat) = of_int \<lfloor>x\<rfloor>" by simp
    have d: "0 < 2 * int t" using that(1) by simp
    from floor_between [OF d y_def] rate_close [OF that pt]
    have "y - 1 \<le> of_int \<lfloor>x\<rfloor> \<and> of_int \<lfloor>x\<rfloor> \<le> y"
      unfolding x_def y_def by blast
    moreover have "y = (of_nat p / of_nat t * 100) * 10 + 1/2"
      unfolding y_def by (rule percent_as_quotient [OF that(1), symmetric])
    ultimately have "\<bar>of_nat (nat \<lfloor>x\<rfloor>) - (of_nat p / of_nat t * 100) * 10 :: rat\<bar> \<le> 1/2"
      unfolding n by linarith
    moreover have "successRate (report_summary r) = tenths (nat \<lfloor>x\<rfloor>)"
      by (simp add: r_def rate_of_nonempty [OF that(1)] x_def)
    ultimately show ?thesis by blast
  qed
  have "generateSummary st = Return r st
          \<and> total (report_summary r) = int t
          \<and> passed (report_summary r) = int p
          \<and> passed (report_summary r) + failed (report_summary r) = total (report_summary r)
          \<and> (t = 0 \<longrightarrow> js_divide p t = NaN \<and> successRate (report_summary r) = ''NaN'')
          \<and> (0 < t \<and> t < 2 ^ 32 \<and> \<not> halfway p t \<longrightarrow>
                successRate (report_summary r) = rounded_percent p t)
          \<and> (0 < t \<and> t < 2 ^ 32 \<longrightarrow>
                (\<exists>n. successRate (report_summary r) = tenths n
                    \<and> \<bar>of_nat n - (of_nat p / of_nat t * 100) * 10 :: rat\<bar> \<le> 1/2))"
    using run empty exact near by (simp add: r_def)
  then show ?thesis
    unfolding Let_def t_def [symmetric] p_def [symmetric] by (rule exI)
qed


theorem summary_counts_and_rate_witness:
  "length (results (log_of 0 0)) = 0
   \<and> reported_rate (log_of 0 0) = Some ''NaN''
   \<and> length (results (log_of 1 2)) = 3
   \<and> (3::nat) < 2 ^ 32
   \<and> \<not> halfway 1 3
   \<and> reported_rate (log_of 1 2) = Some ''33.3''"
proof -
  have t0: "length (results (log_of 0 0)) = 0" by (simp add: log_of_def)
  have t3: "length (results (log_of 1 2)) = 3"
    "length (filter (\<lambda>r. status r = ''PASS'') (results (log_of 1 2))) = 1"
    by (simp_all add: log_of_def pass_entry_def fail_entry_def)
  have h: "\<not> halfway 1 3" "(3::nat) < 2 ^ 32"
    by (simp_all add: halfway_def)
  have v: "rounded_percent 1 3 = ''33.3''"
    by (simp add: rounded_percent_div tenths_def show_nat.simps digit_def)
  from summary_counts_and_rate [of "log_of 0 0"]
  obtain r where r: "generateSummary (log_of 0 0) = Return r (log_of 0 0)"
      "successRate (report_summary r) = ''NaN''"
    unfolding Let_def using t0 by auto
  from summary_counts_and_rate [of "log_of 1 2"]
  obtain r3 where r3: "generateSummary (log_of 1 2) = Return r3 (log_of 1 2)"
      "successRate (report_summary r3) = rounded_percent 1 3"
    unfolding Let_def t3 using h by auto
  show ?thesis
    using t0 t3(1) h r r3 v by (simp add: reported_rate_def)
qed

end
